theory Spec2Isabelle
  imports Complex_Main "HOL-Library.Sublist" "HOL-Library.AList"
begin

section \<open>JavaScript values\<close>

text \<open>
  The client is the service module that the component imports as
  \<^verbatim>\<open>services/api.js\<close> (its text follows the proxy setup in \<^verbatim>\<open>src/setupProxy.js\<close>) and
  \<^verbatim>\<open>components/TimetableGenerator.js\<close>. It works on parsed JSON bodies. A value is one of the JSON shapes plus \<^verbatim>\<open>undefined\<close>.
  Numbers are the finite numbers JSON can carry, read as reals. An object is a list
  of key/value pairs; a key is looked up at its first binding.
\<close>

datatype jsval =
    JUndefined
  | JNull
  | JBool bool
  | JNum real
  | JStr string
  | JArr "jsval list"
  | JObj "(string \<times> jsval) list"

text \<open>Truthiness, as used by \<^verbatim>\<open>!x\<close>, \<^verbatim>\<open>x || y\<close>, \<^verbatim>\<open>x && y\<close> and \<^verbatim>\<open>x ? a : b\<close>.\<close>

fun truthy :: "jsval \<Rightarrow> bool" where
  "truthy JUndefined = False"
| "truthy JNull = False"
| "truthy (JBool b) = b"
| "truthy (JNum r) = (r \<noteq> 0)"
| "truthy (JStr s) = (s \<noteq> [])"
| "truthy (JArr xs) = True"
| "truthy (JObj kvs) = True"

text \<open>\<^verbatim>\<open>a || b\<close>: the left operand when it is truthy, the right one otherwise.\<close>

definition or_else :: "jsval \<Rightarrow> jsval \<Rightarrow> jsval" where
  "or_else a b = (if truthy a then a else b)"

text \<open>
  \<^verbatim>\<open>x.k\<close> for the keys the client reads (\<^verbatim>\<open>status\<close>, \<^verbatim>\<open>result\<close>, \<^verbatim>\<open>rows\<close>, ...):
  the bound value on an object, \<^verbatim>\<open>undefined\<close> on a missing key and on arrays,
  strings, numbers and booleans, none of which carries one of these keys. On
  \<^verbatim>\<open>null\<close> and \<^verbatim>\<open>undefined\<close> the read throws; every call site below either guards
  the receiver or has its own branch for the throw.
\<close>

fun get_prop :: "jsval \<Rightarrow> string \<Rightarrow> jsval" where
  "get_prop (JObj kvs) k = (case map_of kvs k of Some v \<Rightarrow> v | None \<Rightarrow> JUndefined)"
| "get_prop _ k = JUndefined"

text \<open>\<^verbatim>\<open>x.k = v\<close> on an object.\<close>

fun set_prop :: "jsval \<Rightarrow> string \<Rightarrow> jsval \<Rightarrow> jsval" where
  "set_prop (JObj kvs) k v = JObj (AList.update k v kvs)"
| "set_prop x k v = x"

text \<open>Decimal digits of an array index, the property name under which it is stored.\<close>

fun index_key :: "nat \<Rightarrow> string" where
  "index_key n =
     (if n < 10 then [char_of (48 + n)]
      else index_key (n div 10) @ [char_of (48 + n mod 10)])"

declare index_key.simps [simp del]

text \<open>
  \<^verbatim>\<open>x[i]\<close> for a number \<open>i\<close>: the element of an array, the one-character string of a
  string, the property named by the digits of \<open>i\<close> on an object, \<^verbatim>\<open>undefined\<close>
  out of range and on numbers and booleans.
\<close>

fun get_index :: "jsval \<Rightarrow> nat \<Rightarrow> jsval" where
  "get_index (JArr xs) i = (if i < length xs then xs ! i else JUndefined)"
| "get_index (JStr s) i = (if i < length s then JStr [s ! i] else JUndefined)"
| "get_index (JObj kvs) i = get_prop (JObj kvs) (index_key i)"
| "get_index _ i = JUndefined"

text \<open>
  The own enumerable properties copied by an object spread \<^verbatim>\<open>{ ...x }\<close>: the pairs
  of an object, the indexed elements of an array or string, nothing otherwise.
\<close>

fun spread_props :: "jsval \<Rightarrow> (string \<times> jsval) list" where
  "spread_props (JObj kvs) = kvs"
| "spread_props (JArr xs) = map (\<lambda>i. (index_key i, xs ! i)) [0..<length xs]"
| "spread_props (JStr s) = map (\<lambda>i. (index_key i, JStr [s ! i])) [0..<length s]"
| "spread_props _ = []"

section \<open>Strings\<close>

text \<open>
  Messages are ASCII strings. \<^verbatim>\<open>toLowerCase\<close> folds the letters A to Z, and
  \<^verbatim>\<open>s.includes(pat)\<close> holds when \<open>pat\<close> occurs in \<open>s\<close> as a contiguous block.
\<close>

definition toLowerChar :: "char \<Rightarrow> char" where
  "toLowerChar c =
     (let n = (of_char c :: nat) in if 65 \<le> n \<and> n \<le> 90 then char_of (n + 32) else c)"

definition toLowerCase :: "string \<Rightarrow> string" where
  "toLowerCase s = map toLowerChar s"

definition str_includes :: "string \<Rightarrow> string \<Rightarrow> bool" where
  "str_includes s pat = sublist pat s"

section \<open>Errors\<close>

text \<open>
  A thrown value is an \<^verbatim>\<open>Error\<close> object, identified by its message: the response
  interceptor of the HTTP client rethrows every failure as \<^verbatim>\<open>new Error(message)\<close>.
  \<open>TypeError\<close> is the error the runtime itself throws for a call of a non-function
  or a property read on \<^verbatim>\<open>null\<close>.
\<close>

datatype js_error = Error string | TypeError string

fun error_message :: "js_error \<Rightarrow> string" where
  "error_message (Error m) = m"
| "error_message (TypeError m) = m"

section \<open>The retry wrapper\<close>

text \<open>
  \<^verbatim>\<open>
  const makeRequestWithRetry = async (requestFn, retries = 3) => {
    for (let i = 0; i < retries; i++) {
      try {
        return await requestFn();
      } catch (error) {
        if (i === retries - 1) throw error;
        const msg = error?.message || '';
        if (msg.toLowerCase().includes('cors') || msg.toLowerCase().includes('backend')
            || msg.toLowerCase().includes('network')) {
          await new Promise(resolve => setTimeout(resolve, 1000 * (i + 1)));
        } else {
          throw error;
        }
      }
    }
  };
  \<close>
  A request function is a state transformer on the world it talks to: one call
  returns the response or the thrown error, and the next state of the world. The
  wrapper records what it does in a trace: \<open>Invoked\<close> for each call of the request
  function, \<open>Waited ms\<close> for each timer it awaits.
\<close>

datatype event = Invoked | Waited nat

type_synonym ('s, 'a) request = "'s \<Rightarrow> (js_error + 'a) \<times> 's"

text \<open>What an async function settles with: a value, \<^verbatim>\<open>undefined\<close>, or a thrown error.\<close>

datatype 'a outcome = Returned 'a | ReturnedUndefined | Threw js_error

definition is_transient :: "string \<Rightarrow> bool" where
  "is_transient msg =
     (str_includes (toLowerCase msg) ''cors''
      \<or> str_includes (toLowerCase msg) ''backend''
      \<or> str_includes (toLowerCase msg) ''network'')"

function retry_loop ::
  "('s, 'a) request \<Rightarrow> int \<Rightarrow> int \<Rightarrow> 's \<times> event list \<Rightarrow> 'a outcome \<times> 's \<times> event list"
where
  "retry_loop requestFn retries i (s, tr) =
     (if i < retries then
        (case requestFn s of
           (Inr v, s') \<Rightarrow> (Returned v, s', tr @ [Invoked])
         | (Inl err, s') \<Rightarrow>
             if i = retries - 1 then (Threw err, s', tr @ [Invoked])
             else if is_transient (error_message err) then
               retry_loop requestFn retries (i + 1)
                 (s', tr @ [Invoked, Waited (1000 * nat (i + 1))])
             else (Threw err, s', tr @ [Invoked]))
      else (ReturnedUndefined, s, tr))"
  by pat_completeness auto
termination
  by (relation "measure (\<lambda>(requestFn, retries, i, w). nat (retries - i))") auto

declare retry_loop.simps [simp del]

text \<open>The budget is an optional argument; when it is left out it is 3.\<close>

definition makeRequestWithRetry ::
  "('s, 'a) request \<Rightarrow> int option \<Rightarrow> 's \<times> event list \<Rightarrow> 'a outcome \<times> 's \<times> event list"
where
  "makeRequestWithRetry requestFn retries w =
     retry_loop requestFn (case retries of None \<Rightarrow> 3 | Some n \<Rightarrow> n) 0 w"

text \<open>Reading a trace: how often the request function was called, and the waits.\<close>

definition invocations :: "event list \<Rightarrow> nat" where
  "invocations tr = length (filter (\<lambda>e. e = Invoked) tr)"

fun waits :: "event list \<Rightarrow> nat list" where
  "waits [] = []"
| "waits (Waited ms # tr) = ms # waits tr"
| "waits (Invoked # tr) = waits tr"

text \<open>
  The trace of \<open>m\<close> attempts in a row with the linear backoff between them:
  a call, 1000 ms, a call, 2000 ms, ..., the last call.
\<close>

definition attempts_trace :: "nat \<Rightarrow> event list" where
  "attempts_trace m =
     concat (map (\<lambda>j. [Invoked, Waited (1000 * (j + 1))]) [0..<m - 1]) @ [Invoked]"

text \<open>
  The world after \<open>k\<close> calls of a request function, and what its next call there
  returns: the response or error of call number \<open>k + 1\<close>.
\<close>

fun nth_state :: "('s, 'a) request \<Rightarrow> nat \<Rightarrow> 's \<Rightarrow> 's" where
  "nth_state requestFn 0 s = s"
| "nth_state requestFn (Suc k) s = nth_state requestFn k (snd (requestFn s))"

definition nth_outcome :: "('s, 'a) request \<Rightarrow> nat \<Rightarrow> 's \<Rightarrow> js_error + 'a" where
  "nth_outcome requestFn k s = fst (requestFn (nth_state requestFn k s))"

definition transient_failure :: "js_error + 'a \<Rightarrow> bool" where
  "transient_failure r = (case r of Inl err \<Rightarrow> is_transient (error_message err) | Inr v \<Rightarrow> False)"

section \<open>The upload operation\<close>

text \<open>An HTTP response, as the client reads it: the status code and the parsed body.\<close>

record response =
  http_status :: int
  data :: jsval

text \<open>
  The message of the error the runtime throws for a property read on \<^verbatim>\<open>null\<close> or
  \<^verbatim>\<open>undefined\<close>; its wording depends on the engine and nothing below relies on it.
\<close>

definition cannot_read :: string where
  "cannot_read = ''Cannot read properties of null or undefined''"

text \<open>
  The body of the \<^verbatim>\<open>try\<close> block of \<^verbatim>\<open>uploadFile\<close>, after the request:
  \<^verbatim>\<open>
  const data = response.data;
  const uploadId = data.upload_id || data.uploadId || data.id; // defensive read
  if (!uploadId) throw new Error('upload_id not returned by server');
  return { uploadId, meta: data };
  \<close>
\<close>

definition upload_result :: "jsval \<Rightarrow> js_error + jsval" where
  "upload_result d =
     (if d = JNull \<or> d = JUndefined then Inl (TypeError cannot_read)
      else
        let uploadId =
              or_else (or_else (get_prop d ''upload_id'') (get_prop d ''uploadId''))
                (get_prop d ''id'')
        in if \<not> truthy uploadId then Inl (Error ''upload_id not returned by server'')
           else Inr (JObj [(''uploadId'', uploadId), (''meta'', d)]))"

text \<open>
  \<^verbatim>\<open>uploadFile\<close>: the request goes through the retry wrapper with the default
  budget; whatever is thrown inside the \<^verbatim>\<open>try\<close> block is rethrown as
  \<^verbatim>\<open>new Error(`File upload failed: ${message}`)\<close>, where \<^verbatim>\<open>message\<close> is
  \<^verbatim>\<open>err.message || 'Upload failed'\<close> (the errors thrown here carry no \<^verbatim>\<open>response\<close>).
  \<open>post_upload\<close> is \<^verbatim>\<open>() => apiClient.post(uploadEndpoint, formData)\<close>.
\<close>

definition uploadFile ::
  "('s, response) request \<Rightarrow> 's \<times> event list \<Rightarrow> (js_error + jsval) \<times> 's \<times> event list"
where
  "uploadFile post_upload w =
     (case makeRequestWithRetry post_upload None w of
        (out, w') \<Rightarrow>
          (case (case out of
                   Returned resp \<Rightarrow> upload_result (data resp)
                 | ReturnedUndefined \<Rightarrow> Inl (TypeError cannot_read)
                 | Threw err \<Rightarrow> Inl err) of
             Inr r \<Rightarrow> (Inr r, w')
           | Inl err \<Rightarrow>
               (Inl (Error (''File upload failed: '' @
                       (if error_message err = [] then ''Upload failed''
                        else error_message err))), w')))"

text \<open>
  \<^verbatim>\<open>handleGenerate\<close> of the component, on the value \<^verbatim>\<open>uploadFile\<close> returned:
  \<^verbatim>\<open>
  const currentUploadId =
    uploadResponse?.uploadId || uploadResponse?.upload_id ||
    uploadResponse?.fileId || uploadResponse?.id ||
    (uploadResponse?.meta && (
      uploadResponse.meta.upload_id || uploadResponse.meta.uploadId ||
      uploadResponse.meta.id));
  if (!currentUploadId) {
    throw new Error('Upload ID not returned by server. Response: '
                    + JSON.stringify(uploadResponse));
  }
  \<close>
  The serializer \<^verbatim>\<open>JSON.stringify\<close> is a parameter.
\<close>

definition and_then :: "jsval \<Rightarrow> jsval \<Rightarrow> jsval" where
  "and_then a b = (if truthy a then b else a)"

definition currentUploadId :: "jsval \<Rightarrow> jsval" where
  "currentUploadId uploadResponse =
     or_else
       (or_else
          (or_else
             (or_else (get_prop uploadResponse ''uploadId'')
                (get_prop uploadResponse ''upload_id''))
             (get_prop uploadResponse ''fileId''))
          (get_prop uploadResponse ''id''))
       (let meta = get_prop uploadResponse ''meta'' in
        and_then meta
          (or_else (or_else (get_prop meta ''upload_id'') (get_prop meta ''uploadId''))
             (get_prop meta ''id'')))"

definition job_handle :: "(jsval \<Rightarrow> string) \<Rightarrow> jsval \<Rightarrow> js_error + jsval" where
  "job_handle JSON_stringify uploadResponse =
     (if \<not> truthy (currentUploadId uploadResponse) then
        Inl (Error (''Upload ID not returned by server. Response: '' @
                    JSON_stringify uploadResponse))
      else Inr (currentUploadId uploadResponse))"

text \<open>The upload step of \<^verbatim>\<open>handleGenerate\<close>: \<^verbatim>\<open>uploadFile\<close>, then the extraction.\<close>

definition handleGenerate_upload ::
  "(jsval \<Rightarrow> string) \<Rightarrow> ('s, response) request \<Rightarrow> 's \<times> event list \<Rightarrow>
     (js_error + jsval) \<times> 's \<times> event list"
where
  "handleGenerate_upload JSON_stringify post_upload w =
     (case uploadFile post_upload w of
        (Inl err, w') \<Rightarrow> (Inl err, w')
      | (Inr uploadResponse, w') \<Rightarrow> (job_handle JSON_stringify uploadResponse, w'))"

section \<open>The poller\<close>

text \<open>
  \<^verbatim>\<open>
  const statusData = statusResponse && statusResponse.data ? statusResponse.data : {};
  const normalized = {
    status: statusData.status || statusData.State || statusData.state,
    progress: typeof statusData.progress === 'number' ? statusData.progress : 0,
    message: statusData.message || '',
    result: statusData.result,
    error: statusData.error || statusData.Error
  };
  if (!normalized.status && normalized.result) { normalized.status = 'completed'; }
  if (!normalized.status && normalized.error) { normalized.status = 'error'; }
  if (!normalized.status) { normalized.status = 'processing'; }
  \<close>
\<close>

definition status_data :: "response outcome \<Rightarrow> jsval" where
  "status_data out =
     (case out of
        Returned resp \<Rightarrow> (if truthy (data resp) then data resp else JObj [])
      | _ \<Rightarrow> JObj [])"

record normalized =
  status :: jsval
  progress :: real
  message :: jsval
  result :: jsval
  error :: jsval

definition normalized_of :: "jsval \<Rightarrow> normalized" where
  "normalized_of statusData =
     (let n0 = \<lparr> status = or_else (or_else (get_prop statusData ''status'')
                                  (get_prop statusData ''State''))
                         (get_prop statusData ''state''),
                progress = (case get_prop statusData ''progress'' of JNum p \<Rightarrow> p | _ \<Rightarrow> 0),
                message = or_else (get_prop statusData ''message'') (JStr []),
                result = get_prop statusData ''result'',
                error = or_else (get_prop statusData ''error'') (get_prop statusData ''Error'') \<rparr>;
          n1 = (if \<not> truthy (status n0) \<and> truthy (result n0)
                then n0\<lparr>status := JStr ''completed''\<rparr> else n0);
          n2 = (if \<not> truthy (status n1) \<and> truthy (error n1)
                then n1\<lparr>status := JStr ''error''\<rparr> else n1)
      in if \<not> truthy (status n2) then n2\<lparr>status := JStr ''processing''\<rparr> else n2)"

text \<open>
  The argument of the progress callback on each poll:
  \<^verbatim>\<open>{ percentage: normalized.progress, message: normalized.message || 'Processing...' }\<close>.
  The callback is optional (\<^verbatim>\<open>if (progressCallback)\<close>); it acts on the state of
  its owner.
\<close>

definition progress_data :: "normalized \<Rightarrow> jsval" where
  "progress_data n =
     JObj [(''percentage'', JNum (progress n)),
           (''message'', or_else (message n) (JStr ''Processing...''))]"

definition completed_data :: jsval where
  "completed_data = JObj [(''percentage'', JNum 100), (''message'', JStr ''Completed'')]"

definition notify :: "(jsval \<Rightarrow> 'u \<Rightarrow> 'u) option \<Rightarrow> jsval \<Rightarrow> 'u \<Rightarrow> 'u" where
  "notify progressCallback d u = (case progressCallback of None \<Rightarrow> u | Some f \<Rightarrow> f d u)"

text \<open>
  The result merge of a completed poll:
  \<^verbatim>\<open>
  if (result) {
    if (!result.timetables && result.timetables_raw) {
      result.timetables = result.timetables_raw;
    }
    if (result.parsed_timetables && result.timetables) {
      result.timetables = result.timetables.map((timetable, index) => {
        const parsed = result.parsed_timetables[index];
        return { ...timetable, rows: parsed ? parsed.rows : [] };
      });
    }
  }
  \<close>
  \<^verbatim>\<open>map\<close> exists on arrays only: on any other truthy \<^verbatim>\<open>timetables\<close> the call throws.
\<close>

definition merged_entry :: "jsval \<Rightarrow> nat \<Rightarrow> jsval \<Rightarrow> jsval" where
  "merged_entry parsed_timetables index timetable =
     (let parsed = get_index parsed_timetables index
      in JObj (AList.update ''rows''
                 (if truthy parsed then get_prop parsed ''rows'' else JArr [])
                 (spread_props timetable)))"

definition merge_result :: "jsval \<Rightarrow> js_error + jsval" where
  "merge_result res =
     (if truthy res then
        let r1 = (if \<not> truthy (get_prop res ''timetables'') \<and> truthy (get_prop res ''timetables_raw'')
                  then set_prop res ''timetables'' (get_prop res ''timetables_raw'')
                  else res)
        in if truthy (get_prop r1 ''parsed_timetables'') \<and> truthy (get_prop r1 ''timetables'')
           then (case get_prop r1 ''timetables'' of
                   JArr ts \<Rightarrow>
                     Inr (set_prop r1 ''timetables''
                            (JArr (map (\<lambda>(index, timetable).
                                          merged_entry (get_prop r1 ''parsed_timetables'') index timetable)
                                     (enumerate 0 ts))))
                 | _ \<Rightarrow> Inl (TypeError ''result.timetables.map is not a function''))
           else Inr r1
      else Inr res)"

text \<open>
  The \<^verbatim>\<open>catch\<close> clause of a poll, and \<^verbatim>\<open>new Error(v)\<close>, whose message is \<open>v\<close> when
  \<open>v\<close> is a string and the runtime's string conversion of \<open>v\<close> (a parameter) otherwise.
\<close>

definition poll_catch :: "js_error \<Rightarrow> js_error" where
  "poll_catch err =
     (if str_includes (error_message err) ''CORS''
      then Error ''CORS policy is blocking requests to the backend. Please check the server configuration.''
      else err)"

definition new_Error :: "(jsval \<Rightarrow> string) \<Rightarrow> jsval \<Rightarrow> js_error" where
  "new_Error to_string v = Error (case v of JStr m \<Rightarrow> m | _ \<Rightarrow> to_string v)"

definition maxAttempts :: nat where
  "maxAttempts = 120"

definition status_url :: "string \<Rightarrow> string" where
  "status_url uploadId = ''/get-timetable-status/'' @ uploadId"

text \<open>How the promise of \<^verbatim>\<open>pollForCompletion\<close> settles.\<close>

datatype settled = Resolved jsval | Rejected js_error

text \<open>
  \<^verbatim>\<open>checkStatus\<close>, one poll. \<open>attempts\<close> is the counter shared by the polls; the
  world is the server's state, the state of the callback's owner and the trace. The
  poll either settles the promise (\<open>Some\<close>), or stays non-terminal below the ceiling
  and schedules itself again with \<^verbatim>\<open>setTimeout(checkStatus, 5000)\<close> (\<open>None\<close>, after
  a wait of 5000 ms). The result carries the new value of \<open>attempts\<close>.
\<close>

definition checkStatus ::
  "(jsval \<Rightarrow> string) \<Rightarrow> (string \<Rightarrow> ('s, response) request) \<Rightarrow> string \<Rightarrow>
   (jsval \<Rightarrow> 'u \<Rightarrow> 'u) option \<Rightarrow> nat \<Rightarrow> 's \<times> 'u \<times> event list \<Rightarrow>
   settled option \<times> nat \<times> 's \<times> 'u \<times> event list"
where
  "checkStatus to_string apiClient_get uploadId progressCallback attempts w =
     (case w of (s, u, tr) \<Rightarrow>
       (case makeRequestWithRetry (apiClient_get (status_url uploadId)) None (s, tr) of
          (Threw err, s', tr') \<Rightarrow> (Some (Rejected (poll_catch err)), attempts + 1, s', u, tr')
        | (statusResponse, s', tr') \<Rightarrow>
            (let n = normalized_of (status_data statusResponse);
                 u' = notify progressCallback (progress_data n) u
             in if status n = JStr ''completed'' then
                  (case merge_result (result n) of
                     Inl err \<Rightarrow> (Some (Rejected (poll_catch err)), attempts + 1, s', u', tr')
                   | Inr res \<Rightarrow>
                       (Some (Resolved res), attempts + 1, s',
                        notify progressCallback completed_data u', tr'))
                else if status n = JStr ''error'' then
                  (Some (Rejected (new_Error to_string
                                     (or_else (error n) (JStr ''Generation failed'')))),
                   attempts + 1, s', u', tr')
                else if attempts + 1 \<ge> maxAttempts then
                  (Some (Rejected (Error ''Generation timeout - please try again'')),
                   attempts + 1, s', u', tr')
                else (None, attempts + 1, s', u', tr' @ [Waited 5000]))))"

text \<open>
  The event loop runs the scheduled polls until the promise settles. The result is
  the settlement, the final value of \<open>attempts\<close> and the final world.
\<close>

function poll_loop ::
  "(jsval \<Rightarrow> string) \<Rightarrow> (string \<Rightarrow> ('s, response) request) \<Rightarrow> string \<Rightarrow>
   (jsval \<Rightarrow> 'u \<Rightarrow> 'u) option \<Rightarrow> nat \<Rightarrow> 's \<times> 'u \<times> event list \<Rightarrow>
   settled \<times> nat \<times> 's \<times> 'u \<times> event list"
where
  "poll_loop to_string apiClient_get uploadId progressCallback attempts w =
     (case checkStatus to_string apiClient_get uploadId progressCallback attempts w of
        (Some r, attempts', w') \<Rightarrow> (r, attempts', w')
      | (None, attempts', w') \<Rightarrow>
          poll_loop to_string apiClient_get uploadId progressCallback attempts' w')"
  by pat_completeness auto
termination
  apply (relation "measure (\<lambda>(to_string, apiClient_get, uploadId, progressCallback, attempts, w).
                             maxAttempts - attempts)")
   apply simp
  apply (auto simp: checkStatus_def Let_def maxAttempts_def
           split: prod.splits outcome.splits sum.splits if_splits)
  done

declare poll_loop.simps [simp del]

definition pollForCompletion ::
  "(jsval \<Rightarrow> string) \<Rightarrow> (string \<Rightarrow> ('s, response) request) \<Rightarrow> string \<Rightarrow>
   (jsval \<Rightarrow> 'u \<Rightarrow> 'u) option \<Rightarrow> 's \<times> 'u \<times> event list \<Rightarrow>
   settled \<times> nat \<times> 's \<times> 'u \<times> event list"
where
  "pollForCompletion to_string apiClient_get uploadId progressCallback w =
     poll_loop to_string apiClient_get uploadId progressCallback 0 w"

text \<open>
  A body is non-terminal when its normalized status is neither \<^verbatim>\<open>'completed'\<close> nor
  \<^verbatim>\<open>'error'\<close>, the two values on which a poll settles.
\<close>

definition non_terminal :: "jsval \<Rightarrow> bool" where
  "non_terminal statusData =
     (status (normalized_of statusData) \<noteq> JStr ''completed''
      \<and> status (normalized_of statusData) \<noteq> JStr ''error'')"

text \<open>
  The progress carried by answer number \<open>j + 1\<close> of the status endpoint, as the poller
  normalizes it, when that call returns a response.
\<close>

definition reported_progress :: "('s, response) request \<Rightarrow> 's \<Rightarrow> nat \<Rightarrow> real option" where
  "reported_progress requestFn s j =
     (case nth_outcome requestFn j s of
        Inr resp \<Rightarrow> Some (progress (normalized_of (status_data (Returned resp))))
      | Inl err \<Rightarrow> None)"

section \<open>The progress callback of the component\<close>

text \<open>
  \<^verbatim>\<open>
  const progressCallback = (progressData) => {
    if (!progressData) return;
    const pct = typeof progressData.percentage === 'number' ? progressData.percentage : null;
    if (pct !== null) {
      const clampedProgress = Math.min(Math.max(pct, 30), 100);
      setProgress(clampedProgress);
    }
    if (progressData.message) { setProgressText(progressData.message); }
  };
  \<close>
  The component's state variables \<^verbatim>\<open>progress\<close> and \<^verbatim>\<open>progressText\<close> are the fields
  \<open>shown_progress\<close> and \<open>shown_text\<close>.
\<close>

record component_state =
  shown_progress :: real
  shown_text :: jsval

definition progressCallback :: "jsval \<Rightarrow> component_state \<Rightarrow> component_state" where
  "progressCallback progressData c =
     (if \<not> truthy progressData then c
      else
        let pct = (case get_prop progressData ''percentage'' of JNum p \<Rightarrow> Some p | _ \<Rightarrow> None);
            c1 = (case pct of
                    Some p \<Rightarrow> c\<lparr>shown_progress := min (max p 30) 100\<rparr>
                  | None \<Rightarrow> c)
        in if truthy (get_prop progressData ''message'')
           then c1\<lparr>shown_text := get_prop progressData ''message''\<rparr>
           else c1)"

section \<open>The export operation\<close>

text \<open>
  \<^verbatim>\<open>
  export const downloadTimetable = async (uploadId, format) => {
    try {
      const response = await makeRequestWithRetry(() =>
        apiClient.post('/export-timetable',
          { upload_id: uploadId, format: format.toLowerCase() },
          { responseType: 'blob' }));
      ...
      const timestamp = new Date().toISOString().slice(0, 10);
      const filename = `timetable_${timestamp}.${format === 'pdf' ? 'pdf' : 'xlsx'}`;
      link.setAttribute('download', filename);
      ...
    } catch (error) {
      throw new Error(`Download failed: ${error.message}`);
    }
  };
  \<close>
  The date stamp is a parameter. The result is the download the browser is handed:
  its file name and the blob.
\<close>

record download =
  filename :: string
  blob :: jsval

definition export_body :: "string \<Rightarrow> string \<Rightarrow> jsval" where
  "export_body uploadId format =
     JObj [(''upload_id'', JStr uploadId), (''format'', JStr (toLowerCase format))]"

definition download_filename :: "string \<Rightarrow> string \<Rightarrow> string" where
  "download_filename timestamp format =
     ''timetable_'' @ timestamp @ ''.'' @ (if format = ''pdf'' then ''pdf'' else ''xlsx'')"

definition downloadTimetable ::
  "(string \<Rightarrow> jsval \<Rightarrow> ('s, response) request) \<Rightarrow> string \<Rightarrow> string \<Rightarrow> string \<Rightarrow>
   's \<times> event list \<Rightarrow> (js_error + download) \<times> 's \<times> event list"
where
  "downloadTimetable apiClient_post timestamp uploadId format w =
     (case makeRequestWithRetry
             (apiClient_post ''/export-timetable'' (export_body uploadId format)) None w of
        (Returned resp, w') \<Rightarrow>
          (Inr \<lparr> filename = download_filename timestamp format, blob = data resp \<rparr>, w')
      | (ReturnedUndefined, w') \<Rightarrow> (Inl (Error (''Download failed: '' @ cannot_read)), w')
      | (Threw err, w') \<Rightarrow> (Inl (Error (''Download failed: '' @ error_message err)), w'))"

section \<open>Reference definition of the status normalization\<close>


definition spec_progress :: "jsval \<Rightarrow> real" where
  "spec_progress raw = (case get_prop raw ''progress'' of JNum p \<Rightarrow> p | _ \<Rightarrow> 0)"

section \<open>Test doubles\<close>

text \<open>
  A scripted request function, in the manner of a mock with queued results: call
  number \<open>n + 1\<close> returns entry \<open>n\<close> of the script, and the default once the script is
  used up. Its state is the number of calls received so far.
\<close>

definition scripted :: "(js_error + 'a) list \<Rightarrow> js_error + 'a \<Rightarrow> (nat, 'a) request" where
  "scripted script dflt n = (if n < length script then script ! n else dflt, Suc n)"

text \<open>An HTTP client whose calls answer from one script, whatever the URL and the body.\<close>

definition scripted_get ::
  "(js_error + 'a) list \<Rightarrow> js_error + 'a \<Rightarrow> string \<Rightarrow> (nat, 'a) request" where
  "scripted_get script dflt url = scripted script dflt"

text \<open>A client whose post records the body it is sent and answers with a fixed reply.\<close>

definition recording_post ::
  "js_error + 'a \<Rightarrow> string \<Rightarrow> jsval \<Rightarrow> (jsval list, 'a) request" where
  "recording_post reply url body sent = (reply, sent @ [body])"

definition ok :: "jsval \<Rightarrow> js_error + response" where
  "ok body = Inr \<lparr> http_status = 200, data = body \<rparr>"

text \<open>A callback that records its arguments, and the percentage of a recorded argument.\<close>

definition recorder :: "jsval \<Rightarrow> jsval list \<Rightarrow> jsval list" where
  "recorder d seen = seen @ [d]"

definition percentage_of :: "jsval \<Rightarrow> real" where
  "percentage_of d = (case get_prop d ''percentage'' of JNum p \<Rightarrow> p | _ \<Rightarrow> 0)"

text \<open>A stand-in for the runtime's string conversion and for the serializer.\<close>

definition stub_string :: "jsval \<Rightarrow> string" where
  "stub_string v = ''<value as string>''"

section \<open>Properties of the retry wrapper\<close>

lemma retry_loop_done:
  "retries \<le> i \<Longrightarrow> retry_loop requestFn retries i (s, tr) = (ReturnedUndefined, s, tr)"
  by (simp add: retry_loop.simps)

lemma retry_loop_success:
  "i < retries \<Longrightarrow> requestFn s = (Inr v, s') \<Longrightarrow>
   retry_loop requestFn retries i (s, tr) = (Returned v, s', tr @ [Invoked])"
  by (simp add: retry_loop.simps)

lemma retry_loop_last:
  "i = retries - 1 \<Longrightarrow> requestFn s = (Inl err, s') \<Longrightarrow>
   retry_loop requestFn retries i (s, tr) = (Threw err, s', tr @ [Invoked])"
  by (simp add: retry_loop.simps)

lemma retry_loop_fatal:
  "i < retries \<Longrightarrow> requestFn s = (Inl err, s') \<Longrightarrow> \<not> is_transient (error_message err) \<Longrightarrow>
   retry_loop requestFn retries i (s, tr) = (Threw err, s', tr @ [Invoked])"
  by (simp add: retry_loop.simps)

lemma retry_loop_again:
  "i < retries - 1 \<Longrightarrow> requestFn s = (Inl err, s') \<Longrightarrow> is_transient (error_message err) \<Longrightarrow>
   retry_loop requestFn retries i (s, tr) =
   retry_loop requestFn retries (i + 1) (s', tr @ [Invoked, Waited (1000 * nat (i + 1))])"
  by (simp add: retry_loop.simps)


lemma nth_outcome_0: "nth_outcome f 0 s = fst (f s)"
  by (simp add: nth_outcome_def)

lemma nth_outcome_Suc: "nth_outcome f (Suc k) s = nth_outcome f k (snd (f s))"
  by (simp add: nth_outcome_def)

lemma nth_state_Suc_right: "nth_state f (Suc k) s = snd (f (nth_state f k s))"
  by (induction k arbitrary: s) simp_all

text \<open>
  After \<open>k\<close> transient failures in a row, with budget left, the loop stands at
  iteration \<open>i + k\<close> and has called and waited \<open>k\<close> times.
\<close>

lemma retry_loop_transient_prefix:
  "\<forall>j<k. transient_failure (nth_outcome f j s) \<Longrightarrow> i + int k < retries \<Longrightarrow> 0 \<le> i \<Longrightarrow>
   retry_loop f retries i (s, tr) =
   retry_loop f retries (i + int k)
     (nth_state f k s, tr @ concat (map (\<lambda>j. [Invoked, Waited (1000 * (nat i + j + 1))]) [0..<k]))"
proof (induction k arbitrary: i s tr)
  case 0
  then show ?case by simp
next
  case (Suc k)
  from Suc.prems(1) have t0: "transient_failure (nth_outcome f 0 s)" by blast
  then obtain err s' where fs: "f s = (Inl err, s')" and tr: "is_transient (error_message err)"
    by (cases "f s"; cases "fst (f s)") (auto simp: transient_failure_def nth_outcome_0)
  have rest: "\<forall>j<k. transient_failure (nth_outcome f j s')"
    using Suc.prems(1) fs by (auto simp: nth_outcome_Suc dest: spec[where x="Suc _"])
  have step: "retry_loop f retries i (s, tr) =
    retry_loop f retries (i + 1) (s', tr @ [Invoked, Waited (1000 * nat (i + 1))])"
    using Suc.prems fs tr by (intro retry_loop_again) auto
  have ih: "retry_loop f retries (i + 1) (s', tr @ [Invoked, Waited (1000 * nat (i + 1))]) =
     retry_loop f retries (i + 1 + int k)
     (nth_state f k s', (tr @ [Invoked, Waited (1000 * nat (i + 1))]) @
        concat (map (\<lambda>j. [Invoked, Waited (1000 * (nat (i + 1) + j + 1))]) [0..<k]))"
    using Suc.prems rest by (intro Suc.IH) auto
  have shift: "concat (map (\<lambda>j. [Invoked, Waited (1000 * (nat i + j + 1))]) [0..<Suc k]) =
     [Invoked, Waited (1000 * nat (i + 1))] @
        concat (map (\<lambda>j. [Invoked, Waited (1000 * (nat (i + 1) + j + 1))]) [0..<k])"
  proof -
    have "[0..<Suc k] = 0 # map Suc [0..<k]"
      by (simp add: upt_conv_Cons map_Suc_upt del: upt_Suc)
    then show ?thesis using Suc.prems(3)
      by (simp add: o_def nat_add_distrib del: upt_Suc)
  qed
  show ?case
    using step ih shift fs by (simp add: algebra_simps del: upt_Suc)
qed

lemma invocations_append: "invocations (xs @ ys) = invocations xs + invocations ys"
  by (simp add: invocations_def)

lemma waits_append: "waits (xs @ ys) = waits xs @ waits ys"
  by (induction xs rule: waits.induct) simp_all





lemma retry_prefix0:
  assumes "\<forall>j<k. transient_failure (nth_outcome f j s)" and "int k < retries"
  shows "retry_loop f retries 0 (s, tr) =
         retry_loop f retries (int k)
           (nth_state f k s, tr @ concat (map (\<lambda>j. [Invoked, Waited (1000 * (j + 1))]) [0..<k]))"
  using retry_loop_transient_prefix[of k f s 0 retries tr] assms by simp

lemma retry_succeeds:
  assumes "\<forall>j<k. transient_failure (nth_outcome f j s)" and "int k < retries"
    and "nth_outcome f k s = Inr v"
  shows "retry_loop f retries 0 (s, tr) =
         (Returned v, nth_state f (Suc k) s, tr @ attempts_trace (Suc k))"
proof -
  have "f (nth_state f k s) = (Inr v, nth_state f (Suc k) s)"
    using assms(3) by (simp add: nth_outcome_def nth_state_Suc_right prod_eq_iff del: nth_state.simps)
  then show ?thesis
    using retry_prefix0[OF assms(1,2)] assms(2)
    by (simp add: retry_loop_success attempts_trace_def)
qed

lemma retry_fatal:
  assumes "\<forall>j<k. transient_failure (nth_outcome f j s)" and "int k < retries"
    and "nth_outcome f k s = Inl err" and "\<not> is_transient (error_message err)"
  shows "retry_loop f retries 0 (s, tr) =
         (Threw err, nth_state f (Suc k) s, tr @ attempts_trace (Suc k))"
proof -
  have "f (nth_state f k s) = (Inl err, nth_state f (Suc k) s)"
    using assms(3) by (simp add: nth_outcome_def nth_state_Suc_right prod_eq_iff del: nth_state.simps)
  then show ?thesis
    using retry_prefix0[OF assms(1,2)] assms(2,4)
    by (simp add: retry_loop_fatal attempts_trace_def)
qed

lemma retry_exhausted:
  assumes "\<forall>j<k. transient_failure (nth_outcome f j s)" and "int k = retries - 1"
    and "nth_outcome f k s = Inl err"
  shows "retry_loop f retries 0 (s, tr) =
         (Threw err, nth_state f (Suc k) s, tr @ attempts_trace (Suc k))"
proof -
  have "f (nth_state f k s) = (Inl err, nth_state f (Suc k) s)"
    using assms(3) by (simp add: nth_outcome_def nth_state_Suc_right prod_eq_iff del: nth_state.simps)
  moreover have "int k < retries" using assms(2) by simp
  ultimately show ?thesis
    using retry_prefix0[OF assms(1), of retries tr] assms(2)
    by (simp add: retry_loop_last attempts_trace_def)
qed

text \<open>
  Claim C10. For every request function, a budget \<open>n \<le> 0\<close> makes the wrapper
  return \<^verbatim>\<open>undefined\<close> without calling the request function: the world and the
  trace are unchanged.
\<close>

theorem makeRequestWithRetry_nonpositive_budget:
  "n \<le> 0 \<Longrightarrow> makeRequestWithRetry requestFn (Some n) (s, tr) = (ReturnedUndefined, s, tr)"
  by (simp add: makeRequestWithRetry_def retry_loop_done)

theorem makeRequestWithRetry_nonpositive_budget_witness:
  "(0::int) \<le> 0 \<and>
   makeRequestWithRetry (scripted [] (Inr (1::nat))) (Some 0) (0, []) = (ReturnedUndefined, 0, [])"
  using makeRequestWithRetry_nonpositive_budget [of 0 "scripted [] (Inr (1::nat))" 0 "[]"]
  by simp


lemma nth_state_scripted: "nth_state (scripted script dflt) k n = n + k"
  by (induction k arbitrary: n) (simp_all add: scripted_def)

lemma nth_outcome_scripted:
  "nth_outcome (scripted script dflt) k n =
     (if n + k < length script then script ! (n + k) else dflt)"
  by (simp add: nth_outcome_def nth_state_scripted scripted_def)




section \<open>Properties of the result merge and of the status normalization\<close>

lemma makeRequestWithRetry_first_success:
  "requestFn s = (Inr v, s') \<Longrightarrow>
   makeRequestWithRetry requestFn None (s, tr) = (Returned v, s', tr @ [Invoked])"
  by (simp add: makeRequestWithRetry_def retry_loop_success)

lemma get_prop_set_prop_same:
  "get_prop (set_prop (JObj kvs) k v) k = v"
  by (simp add: update_conv')

lemma get_prop_set_prop_other:
  "k' \<noteq> k \<Longrightarrow> get_prop (set_prop x k v) k' = get_prop x k'"
  by (cases x) (simp_all add: update_conv')

lemma get_prop_defined_obj:
  "get_prop x k \<noteq> JUndefined \<Longrightarrow> \<exists>kvs. x = JObj kvs"
  by (cases x) simp_all

lemma rows_merged_entry:
  "get_prop (merged_entry P i t) ''rows'' =
     (if truthy (get_index P i) then get_prop (get_index P i) ''rows'' else JArr [])"
  by (simp add: merged_entry_def Let_def update_conv')

text \<open>
  Claim C9. A completed result that carries a timetables array \<open>T\<close> and a
  parsed_timetables array \<open>P\<close> is merged without an error into a result whose
  timetables array has one entry per entry of \<open>T\<close>. When the arrays have the same
  length and every entry of \<open>P\<close> is a parsed entry (an object, hence truthy), entry \<open>i\<close>
  carries the rows of \<open>P[i]\<close>; when \<open>P\<close> is shorter, every entry at an index beyond \<open>P\<close>
  carries the empty array as its rows. An entry of \<open>P\<close> that is not a parsed entry
  but a falsy value such as \<^verbatim>\<open>null\<close> counts as missing and gives empty rows as well.
\<close>

theorem merge_result_rows:
  assumes T: "get_prop res ''timetables'' = JArr ts"
    and P: "get_prop res ''parsed_timetables'' = JArr ps"
  shows "\<exists>ms. merge_result res = Inr (set_prop res ''timetables'' (JArr ms))
           \<and> get_prop (set_prop res ''timetables'' (JArr ms)) ''timetables'' = JArr ms
           \<and> length ms = length ts
           \<and> (length ts = length ps \<and> (\<forall>i<length ps. truthy (ps ! i)) \<longrightarrow>
                (\<forall>i<length ts. get_prop (ms ! i) ''rows'' = get_prop (ps ! i) ''rows''))
           \<and> (length ps < length ts \<longrightarrow>
                (\<forall>i. length ps \<le> i \<and> i < length ts \<longrightarrow> get_prop (ms ! i) ''rows'' = JArr []))
           \<and> (\<forall>i. i < length ts \<and> i < length ps \<and> \<not> truthy (ps ! i) \<longrightarrow>
                get_prop (ms ! i) ''rows'' = JArr [])"
proof -
  let ?ms = "map (\<lambda>(index, timetable). merged_entry (JArr ps) index timetable) (enumerate 0 ts)"
  from T obtain kvs where res: "res = JObj kvs"
    using get_prop_defined_obj[of res "''timetables''"] by auto
  have m: "merge_result res = Inr (set_prop res ''timetables'' (JArr ?ms))"
    using T P by (simp add: merge_result_def res)
  have nth: "?ms ! i = merged_entry (JArr ps) i (ts ! i)" if "i < length ts" for i
    using that by (simp add: nth_enumerate_eq)
  have rows: "get_prop (?ms ! i) ''rows'' =
      (if i < length ps \<and> truthy (ps ! i) then get_prop (ps ! i) ''rows'' else JArr [])"
    if "i < length ts" for i
    using that by (simp add: nth_enumerate_eq rows_merged_entry)
  show ?thesis
  proof (intro exI[of _ ?ms] conjI impI allI)
    show "merge_result res = Inr (set_prop res ''timetables'' (JArr ?ms))" by (rule m)
    show "get_prop (set_prop res ''timetables'' (JArr ?ms)) ''timetables'' = JArr ?ms"
      unfolding res by (rule get_prop_set_prop_same)
    show "length ?ms = length ts" by simp
  next
    fix i assume "length ts = length ps \<and> (\<forall>i<length ps. truthy (ps ! i))" "i < length ts"
    then show "get_prop (?ms ! i) ''rows'' = get_prop (ps ! i) ''rows''"
      using rows[of i] by simp
  next
    fix i assume "length ps < length ts" "length ps \<le> i \<and> i < length ts"
    then show "get_prop (?ms ! i) ''rows'' = JArr []"
      using rows[of i] by simp
  next
    fix i assume "i < length ts \<and> i < length ps \<and> \<not> truthy (ps ! i)"
    then show "get_prop (?ms ! i) ''rows'' = JArr []"
      using rows[of i] by simp
  qed
qed

theorem merge_result_rows_witness:
  "get_prop (JObj [(''timetables'', JArr [JObj [(''title'', JStr ''A'')], JObj [(''title'', JStr ''B'')]]),
                   (''parsed_timetables'', JArr [JObj [(''rows'', JArr [JStr ''r0''])]])]) ''timetables''
     = JArr [JObj [(''title'', JStr ''A'')], JObj [(''title'', JStr ''B'')]]
   \<and> length [JObj [(''rows'', JArr [JStr ''r0''])]]
       < length [JObj [(''title'', JStr ''A'')], JObj [(''title'', JStr ''B'')]]
   \<and> merge_result
        (JObj [(''timetables'', JArr [JObj [(''title'', JStr ''A'')], JObj [(''title'', JStr ''B'')]]),
               (''parsed_timetables'', JArr [JObj [(''rows'', JArr [JStr ''r0''])]])])
     = Inr (JObj [(''timetables'',
                    JArr [JObj [(''title'', JStr ''A''), (''rows'', JArr [JStr ''r0''])],
                          JObj [(''title'', JStr ''B''), (''rows'', JArr [])]]),
                  (''parsed_timetables'', JArr [JObj [(''rows'', JArr [JStr ''r0''])]])])
   \<and> length [JObj [(''title'', JStr ''A'')]] = length [JObj [(''rows'', JArr [JStr ''r0''])]]
   \<and> truthy (JObj [(''rows'', JArr [JStr ''r0''])])
   \<and> merge_result
        (JObj [(''timetables'', JArr [JObj [(''title'', JStr ''A'')]]),
               (''parsed_timetables'', JArr [JObj [(''rows'', JArr [JStr ''r0''])]])])
     = Inr (JObj [(''timetables'',
                    JArr [JObj [(''title'', JStr ''A''), (''rows'', JArr [JStr ''r0''])]]),
                  (''parsed_timetables'', JArr [JObj [(''rows'', JArr [JStr ''r0''])]])])"
  using merge_result_rows [of
      "JObj [(''timetables'', JArr [JObj [(''title'', JStr ''A'')], JObj [(''title'', JStr ''B'')]]),
             (''parsed_timetables'', JArr [JObj [(''rows'', JArr [JStr ''r0''])]])]"
      "[JObj [(''title'', JStr ''A'')], JObj [(''title'', JStr ''B'')]]"
      "[JObj [(''rows'', JArr [JStr ''r0''])]]"]
    merge_result_rows [of
      "JObj [(''timetables'', JArr [JObj [(''title'', JStr ''A'')]]),
             (''parsed_timetables'', JArr [JObj [(''rows'', JArr [JStr ''r0''])]])]"
      "[JObj [(''title'', JStr ''A'')]]"
      "[JObj [(''rows'', JArr [JStr ''r0''])]]"]
  by (simp add: merge_result_def merged_entry_def enumerate_eq_zip upt_rec)

lemma status_normalized_of:
  "status (normalized_of raw) =
     (if truthy (get_prop raw ''status'') then get_prop raw ''status''
      else if truthy (get_prop raw ''State'') then get_prop raw ''State''
      else if truthy (get_prop raw ''state'') then get_prop raw ''state''
      else if truthy (get_prop raw ''result'') then JStr ''completed''
      else if truthy (get_prop raw ''error'') \<or> truthy (get_prop raw ''Error'') then JStr ''error''
      else JStr ''processing'')"
  by (simp add: normalized_of_def Let_def or_else_def)

lemma fields_normalized_of:
  "progress (normalized_of raw) = (case get_prop raw ''progress'' of JNum p \<Rightarrow> p | _ \<Rightarrow> 0)"
  "message (normalized_of raw) = or_else (get_prop raw ''message'') (JStr [])"
  "result (normalized_of raw) = get_prop raw ''result''"
  "error (normalized_of raw) = or_else (get_prop raw ''error'') (get_prop raw ''Error'')"
  by (simp_all add: normalized_of_def Let_def)






section \<open>Properties of the upload and export operations\<close>

lemma handleGenerate_upload_response:
  assumes "post_upload s = (Inr resp, s')" and "data resp \<noteq> JNull" and "data resp \<noteq> JUndefined"
  shows "handleGenerate_upload JSON_stringify post_upload (s, tr) =
      (if truthy (get_prop (data resp) ''upload_id'') then Inr (get_prop (data resp) ''upload_id'')
       else if truthy (get_prop (data resp) ''uploadId'') then Inr (get_prop (data resp) ''uploadId'')
       else if truthy (get_prop (data resp) ''id'') then Inr (get_prop (data resp) ''id'')
       else Inl (Error ''File upload failed: upload_id not returned by server''),
       s', tr @ [Invoked])"
  using assms(2,3)
  by (simp add: handleGenerate_upload_def uploadFile_def upload_result_def job_handle_def
        currentUploadId_def or_else_def and_then_def Let_def
        makeRequestWithRetry_first_success[of post_upload s resp s', OF assms(1)])

text \<open>
  Claim C7, as amended. When the upload request returns a response with a body, the
  upload step reads the job identifier from the keys \<^verbatim>\<open>upload_id\<close>, \<^verbatim>\<open>uploadId\<close>, \<^verbatim>\<open>id\<close>
  at the root of the body, in that order, taking the first truthy value. A \<^verbatim>\<open>meta\<close>
  object nested in the body is not consulted: \<^verbatim>\<open>uploadFile\<close> hands the whole body on
  as \<^verbatim>\<open>meta\<close>, so the component's fallback reads the same root keys again. When none
  of the three is truthy the step fails with the message
  \<^verbatim>\<open>File upload failed: upload_id not returned by server\<close>, which does not carry the
  serialized response.
\<close>

theorem upload_job_handle:
  assumes "post_upload s = (Inr resp, s')" and "data resp \<noteq> JNull" and "data resp \<noteq> JUndefined"
  shows "fst (handleGenerate_upload JSON_stringify post_upload (s, tr)) =
      (if truthy (get_prop (data resp) ''upload_id'') then Inr (get_prop (data resp) ''upload_id'')
       else if truthy (get_prop (data resp) ''uploadId'') then Inr (get_prop (data resp) ''uploadId'')
       else if truthy (get_prop (data resp) ''id'') then Inr (get_prop (data resp) ''id'')
       else Inl (Error ''File upload failed: upload_id not returned by server''))"
  by (simp add: handleGenerate_upload_response[of post_upload s resp s', OF assms])

theorem upload_job_handle_witness:
  "scripted [] (ok (JObj [(''uploadId'', JStr ''u1''), (''id'', JStr ''i1'')])) 0
     = (Inr \<lparr> http_status = 200, data = JObj [(''uploadId'', JStr ''u1''), (''id'', JStr ''i1'')] \<rparr>, 1)
   \<and> JObj [(''uploadId'', JStr ''u1''), (''id'', JStr ''i1'')] \<noteq> JNull
   \<and> JObj [(''uploadId'', JStr ''u1''), (''id'', JStr ''i1'')] \<noteq> JUndefined
   \<and> fst (handleGenerate_upload stub_string
            (scripted [] (ok (JObj [(''uploadId'', JStr ''u1''), (''id'', JStr ''i1'')]))) (0, []))
       = Inr (JStr ''u1'')"
  using upload_job_handle [of "scripted [] (ok (JObj [(''uploadId'', JStr ''u1''), (''id'', JStr ''i1'')]))"
      0 "\<lparr> http_status = 200, data = JObj [(''uploadId'', JStr ''u1''), (''id'', JStr ''i1'')] \<rparr>" 1
      stub_string "[]"]
  by (simp add: scripted_def ok_def)

text \<open>
  The claim as stated fails on the body \<^verbatim>\<open>{meta: {upload_id: "abc"}}\<close>: the identifier
  under \<^verbatim>\<open>meta\<close> is not found, and the error does not carry the serialized response.
\<close>

theorem upload_job_handle_counterexample:
  "fst (handleGenerate_upload stub_string
          (scripted [] (ok (JObj [(''meta'', JObj [(''upload_id'', JStr ''abc'')])]))) (0, []))
     = Inl (Error ''File upload failed: upload_id not returned by server'')"
  using handleGenerate_upload_response [of
      "scripted [] (ok (JObj [(''meta'', JObj [(''upload_id'', JStr ''abc'')])]))" 0
      "\<lparr> http_status = 200, data = JObj [(''meta'', JObj [(''upload_id'', JStr ''abc'')])] \<rparr>" 1
      stub_string "[]"]
  by (simp add: scripted_def ok_def)

text \<open>
  Claim C6. The format sent to the server is folded to lower case, but the file name
  is chosen by comparing the format as given with \<^verbatim>\<open>'pdf'\<close>: an export with the format
  \<^verbatim>\<open>PDF\<close> asks the server for \<^verbatim>\<open>pdf\<close> and names the download \<^verbatim>\<open>.xlsx\<close>.
\<close>

theorem downloadTimetable_uppercase_PDF:
  "downloadTimetable (recording_post (ok (JStr ''%PDF-1.7''))) ''2026-11-02'' ''abc'' ''PDF'' ([], [])
     = (Inr \<lparr> filename = ''timetable_2026-11-02.xlsx'', blob = JStr ''%PDF-1.7'' \<rparr>,
        [JObj [(''upload_id'', JStr ''abc''), (''format'', JStr ''pdf'')]],
        [Invoked])"
proof -
  have lower: "toLowerCase ''PDF'' = ''pdf''"
    by code_simp
  have req: "recording_post (ok (JStr ''%PDF-1.7'')) ''/export-timetable'' (export_body ''abc'' ''PDF'') []
      = (Inr \<lparr> http_status = 200, data = JStr ''%PDF-1.7'' \<rparr>, [export_body ''abc'' ''PDF''])"
    by (simp add: recording_post_def ok_def)
  show ?thesis
    by (simp add: downloadTimetable_def download_filename_def lower export_body_def
          makeRequestWithRetry_first_success[of
            "recording_post (ok (JStr ''%PDF-1.7'')) ''/export-timetable'' (export_body ''abc'' ''PDF'')"
            "[]" "\<lparr> http_status = 200, data = JStr ''%PDF-1.7'' \<rparr>"
            "[export_body ''abc'' ''PDF'']", OF req, unfolded export_body_def lower])
qed

section \<open>Properties of the poller\<close>

lemma checkStatus_attempts:
  "checkStatus to_string api uid cb a w = (r, a', w') \<Longrightarrow>
   a' = a + 1 \<and> (r = None \<longrightarrow> a + 1 < maxAttempts)"
  by (auto simp: checkStatus_def Let_def
        split: prod.splits outcome.splits sum.splits if_splits)

lemma poll_loop_settles:
  "checkStatus to_string api uid cb a w = (Some r, a', w') \<Longrightarrow>
   poll_loop to_string api uid cb a w = (r, a', w')"
  by (subst poll_loop.simps) simp

lemma poll_loop_again:
  "checkStatus to_string api uid cb a w = (None, a', w') \<Longrightarrow>
   poll_loop to_string api uid cb a w = poll_loop to_string api uid cb a' w'"
  by (subst poll_loop.simps) simp

lemma poll_loop_attempts:
  "a < fst (snd (poll_loop to_string api uid cb a w))
   \<and> fst (snd (poll_loop to_string api uid cb a w)) \<le> max (a + 1) maxAttempts"
proof (induction "maxAttempts - a" arbitrary: a w rule: less_induct)
  case less
  obtain r a' w' where c: "checkStatus to_string api uid cb a w = (r, a', w')"
    by (cases "checkStatus to_string api uid cb a w") auto
  from checkStatus_attempts[OF c] have a': "a' = a + 1" and lt: "r = None \<longrightarrow> a + 1 < maxAttempts"
    by simp_all
  show ?case
  proof (cases r)
    case None
    with lt have "a + 1 < maxAttempts" by simp
    then have "maxAttempts - (a + 1) < maxAttempts - a" by simp
    from less[OF this, of w'] \<open>a + 1 < maxAttempts\<close>
    show ?thesis
      using poll_loop_again[of to_string api uid cb a w a' w'] c None a' by (simp add: max_def)
  next
    case (Some x)
    then show ?thesis
      using poll_loop_settles[of to_string api uid cb a w x a' w'] c a' by simp
  qed
qed

lemma checkStatus_answer:
  assumes "api (status_url uid) s = (Inr resp, s')"
  shows "checkStatus to_string api uid cb a (s, u, tr) =
     (let n = normalized_of (status_data (Returned resp));
          u' = notify cb (progress_data n) u
      in if status n = JStr ''completed'' then
           (case merge_result (result n) of
              Inl err \<Rightarrow> (Some (Rejected (poll_catch err)), a + 1, s', u', tr @ [Invoked])
            | Inr res \<Rightarrow>
                (Some (Resolved res), a + 1, s', notify cb completed_data u', tr @ [Invoked]))
         else if status n = JStr ''error'' then
           (Some (Rejected (new_Error to_string (or_else (error n) (JStr ''Generation failed'')))),
            a + 1, s', u', tr @ [Invoked])
         else if a + 1 \<ge> maxAttempts then
           (Some (Rejected (Error ''Generation timeout - please try again'')),
            a + 1, s', u', tr @ [Invoked])
         else (None, a + 1, s', u', tr @ [Invoked, Waited 5000]))"
  by (simp add: checkStatus_def Let_def
        makeRequestWithRetry_first_success[of "api (status_url uid)" s resp s', OF assms])

lemma nth_outcome_shift:
  "nth_outcome f j (nth_state f k s) = nth_outcome f (j + k) s"
  by (induction k arbitrary: s) (simp_all add: nth_outcome_def)

lemma nth_state_add: "nth_state f j (nth_state f k s) = nth_state f (j + k) s"
  by (induction k arbitrary: s) simp_all

lemma poll_loop_timeout:
  assumes "\<forall>j < maxAttempts - a. \<exists>resp. nth_outcome (api (status_url uid)) j s = Inr resp
              \<and> non_terminal (status_data (Returned resp))"
    and "a < maxAttempts"
  shows "\<exists>u' tr'. poll_loop to_string api uid cb a (s, u, tr) =
           (Rejected (Error ''Generation timeout - please try again''), maxAttempts,
            nth_state (api (status_url uid)) (maxAttempts - a) s, u', tr')
         \<and> invocations tr' = invocations tr + (maxAttempts - a)
         \<and> waits tr' = waits tr @ replicate (maxAttempts - a - 1) 5000"
  using assms
proof (induction "maxAttempts - a" arbitrary: a s u tr rule: less_induct)
  case less
  let ?f = "api (status_url uid)"
  from less.prems have "\<exists>resp. nth_outcome ?f 0 s = Inr resp \<and> non_terminal (status_data (Returned resp))"
    by simp
  then obtain resp where o0: "nth_outcome ?f 0 s = Inr resp"
    and nt: "non_terminal (status_data (Returned resp))" by blast
  then have fs: "?f s = (Inr resp, snd (?f s))"
    by (simp add: nth_outcome_def prod_eq_iff)
  let ?n = "normalized_of (status_data (Returned resp))"
  let ?u = "notify cb (progress_data ?n) u"
  note step = checkStatus_answer[of api uid s resp "snd (?f s)" to_string cb a u tr, OF fs]
  show ?case
  proof (cases "a + 1 \<ge> maxAttempts")
    case True
    with less.prems(2) have a: "maxAttempts - a = 1" by simp
    have "checkStatus to_string api uid cb a (s, u, tr) =
        (Some (Rejected (Error ''Generation timeout - please try again'')), a + 1, snd (?f s), ?u,
         tr @ [Invoked])"
      using step nt True by (simp add: non_terminal_def Let_def)
    from poll_loop_settles[OF this]
    have "poll_loop to_string api uid cb a (s, u, tr) =
           (Rejected (Error ''Generation timeout - please try again''), maxAttempts,
            nth_state ?f (maxAttempts - a) s, ?u, tr @ [Invoked])"
      using a True less.prems(2) by simp
    moreover have "invocations (tr @ [Invoked]) = invocations tr + (maxAttempts - a)"
      using a by (simp add: invocations_append) (simp add: invocations_def)
    moreover have "waits (tr @ [Invoked]) = waits tr @ replicate (maxAttempts - a - 1) 5000"
      using a by (simp add: waits_append)
    ultimately show ?thesis by blast
  next
    case False
    then have lt: "maxAttempts - (a + 1) < maxAttempts - a" and a1: "a + 1 < maxAttempts" by simp_all
    have c: "checkStatus to_string api uid cb a (s, u, tr) =
        (None, a + 1, snd (?f s), ?u, tr @ [Invoked, Waited 5000])"
      using step nt False by (simp add: non_terminal_def Let_def)
    have rest: "\<forall>j < maxAttempts - (a + 1). \<exists>resp. nth_outcome ?f j (snd (?f s)) = Inr resp
              \<and> non_terminal (status_data (Returned resp))"
    proof (intro allI impI)
      fix j assume "j < maxAttempts - (a + 1)"
      then have "Suc j < maxAttempts - a" by simp
      with less.prems(1) have "\<exists>resp. nth_outcome ?f (Suc j) s = Inr resp
              \<and> non_terminal (status_data (Returned resp))"
        by blast
      then show "\<exists>resp. nth_outcome ?f j (snd (?f s)) = Inr resp
              \<and> non_terminal (status_data (Returned resp))"
        by (simp add: nth_outcome_Suc)
    qed
    from less.hyps[OF lt rest a1, of ?u "tr @ [Invoked, Waited 5000]"]
    obtain u' tr' where
      r: "poll_loop to_string api uid cb (a + 1) (snd (?f s), ?u, tr @ [Invoked, Waited 5000]) =
           (Rejected (Error ''Generation timeout - please try again''), maxAttempts,
            nth_state ?f (maxAttempts - (a + 1)) (snd (?f s)), u', tr')"
      and i: "invocations tr' = invocations (tr @ [Invoked, Waited 5000]) + (maxAttempts - (a + 1))"
      and w: "waits tr' = waits (tr @ [Invoked, Waited 5000]) @ replicate (maxAttempts - (a + 1) - 1) 5000"
      by blast
    have d: "maxAttempts - a = Suc (maxAttempts - (a + 1))"
      using a1 by simp
    have st: "nth_state ?f (maxAttempts - (a + 1)) (snd (?f s)) = nth_state ?f (maxAttempts - a) s"
      by (simp only: d nth_state.simps)
    have rep: "replicate (maxAttempts - a - 1) (5000::nat) = replicate (maxAttempts - (a + 1)) 5000"
      by (simp only: d diff_Suc_1)
    have rep2: "5000 # replicate (maxAttempts - (a + 1) - 1) (5000::nat)
                  = replicate (maxAttempts - (a + 1)) 5000"
      using a1 by (cases "maxAttempts - (a + 1)") simp_all
    have "poll_loop to_string api uid cb a (s, u, tr) =
           (Rejected (Error ''Generation timeout - please try again''), maxAttempts,
            nth_state ?f (maxAttempts - a) s, u', tr')"
      using poll_loop_again[OF c] r st by simp
    moreover have "invocations tr' = invocations tr + (maxAttempts - a)"
      using i d by (simp add: invocations_append) (simp add: invocations_def)
    moreover have "waits tr' = waits tr @ replicate (maxAttempts - a - 1) 5000"
      using w rep rep2 by (simp add: waits_append)
    ultimately show ?thesis by blast
  qed
qed

text \<open>
  Claim C3. When the first 120 answers of the status endpoint are responses with a
  non-terminal body, the poller polls exactly 120 times (120 calls of the endpoint,
  119 waits of 5000 ms), rejects with the timeout error and leaves the server after
  its 120th call: there is no 121st poll. Whatever the server does, the poller settles
  after at least one and at most 120 polls.
\<close>

theorem pollForCompletion_timeout:
  "((\<forall>j<120. \<exists>resp. nth_outcome (apiClient_get (status_url uploadId)) j s = Inr resp
                \<and> non_terminal (status_data (Returned resp))) \<longrightarrow>
      (\<exists>u' tr'. pollForCompletion to_string apiClient_get uploadId cb (s, u, []) =
          (Rejected (Error ''Generation timeout - please try again''), 120,
           nth_state (apiClient_get (status_url uploadId)) 120 s, u', tr')
        \<and> invocations tr' = 120 \<and> waits tr' = replicate 119 5000))
   \<and> 1 \<le> fst (snd (pollForCompletion to_string apiClient_get uploadId cb w))
   \<and> fst (snd (pollForCompletion to_string apiClient_get uploadId cb w)) \<le> 120"
proof (intro conjI impI)
  assume "\<forall>j<120. \<exists>resp. nth_outcome (apiClient_get (status_url uploadId)) j s = Inr resp
                \<and> non_terminal (status_data (Returned resp))"
  then have h: "\<forall>j < maxAttempts - 0. \<exists>resp. nth_outcome (apiClient_get (status_url uploadId)) j s = Inr resp
                \<and> non_terminal (status_data (Returned resp))"
    by (simp add: maxAttempts_def)
  have "0 < maxAttempts" by (simp add: maxAttempts_def)
  from poll_loop_timeout[of 0 apiClient_get uploadId s to_string cb u "[]", OF h this]
  show "\<exists>u' tr'. pollForCompletion to_string apiClient_get uploadId cb (s, u, []) =
          (Rejected (Error ''Generation timeout - please try again''), 120,
           nth_state (apiClient_get (status_url uploadId)) 120 s, u', tr')
        \<and> invocations tr' = 120 \<and> waits tr' = replicate 119 5000"
    by (simp add: pollForCompletion_def maxAttempts_def invocations_def)
next
  show "1 \<le> fst (snd (pollForCompletion to_string apiClient_get uploadId cb w))"
    using poll_loop_attempts[of 0 to_string apiClient_get uploadId cb w]
    by (simp add: pollForCompletion_def)
  show "fst (snd (pollForCompletion to_string apiClient_get uploadId cb w)) \<le> 120"
    using poll_loop_attempts[of 0 to_string apiClient_get uploadId cb w]
    by (simp add: pollForCompletion_def maxAttempts_def)
qed

lemma nth_outcome_scripted_get:
  "nth_outcome (scripted_get script dflt url) k n =
     (if n + k < length script then script ! (n + k) else dflt)"
  by (simp add: scripted_get_def nth_outcome_scripted)

lemma nth_state_scripted_get: "nth_state (scripted_get script dflt url) k n = n + k"
  by (simp add: scripted_get_def nth_state_scripted)

lemma non_terminal_Processing:
  "non_terminal (status_data (Returned \<lparr> http_status = 200,
      data = JObj [(''status'', JStr ''Processing'')] \<rparr>))"
  by (simp add: non_terminal_def status_data_def status_normalized_of)

theorem pollForCompletion_timeout_witness:
  "(\<forall>j. nth_outcome (scripted_get [] (ok (JObj [(''status'', JStr ''Processing'')])) (status_url ''abc'')) j 0
          = Inr \<lparr> http_status = 200, data = JObj [(''status'', JStr ''Processing'')] \<rparr>)
   \<and> non_terminal (status_data (Returned \<lparr> http_status = 200,
         data = JObj [(''status'', JStr ''Processing'')] \<rparr>))
   \<and> fst (pollForCompletion stub_string (scripted_get [] (ok (JObj [(''status'', JStr ''Processing'')])))
            ''abc'' (Some recorder) (0, [], []))
       = Rejected (Error ''Generation timeout - please try again'')
   \<and> fst (snd (pollForCompletion stub_string (scripted_get [] (ok (JObj [(''status'', JStr ''Processing'')])))
            ''abc'' (Some recorder) (0, [], []))) = 120
   \<and> fst (snd (snd (pollForCompletion stub_string (scripted_get [] (ok (JObj [(''status'', JStr ''Processing'')])))
            ''abc'' (Some recorder) (0, [], [])))) = 120"
proof -
  let ?api = "scripted_get [] (ok (JObj [(''status'', JStr ''Processing'')]))"
  have o: "\<forall>j. nth_outcome (?api (status_url ''abc'')) j 0
          = Inr \<lparr> http_status = 200, data = JObj [(''status'', JStr ''Processing'')] \<rparr>"
    by (simp add: nth_outcome_scripted_get ok_def)
  then have h: "\<forall>j<120. \<exists>resp. nth_outcome (?api (status_url ''abc'')) j 0 = Inr resp
                \<and> non_terminal (status_data (Returned resp))"
    using non_terminal_Processing by simp
  from pollForCompletion_timeout[of ?api "''abc''" 0 stub_string "Some recorder" "[]"] h
  obtain u' tr' where "pollForCompletion stub_string ?api ''abc'' (Some recorder) (0, [], []) =
          (Rejected (Error ''Generation timeout - please try again''), 120,
           nth_state (?api (status_url ''abc'')) 120 0, u', tr')"
    by blast
  then show ?thesis
    using o non_terminal_Processing by (simp add: nth_state_scripted_get)
qed





lemma retry_default_outcome:
  "\<exists>m<3. makeRequestWithRetry f None (s, tr) =
       ((case nth_outcome f m s of Inr v \<Rightarrow> Returned v | Inl e \<Rightarrow> Threw e),
        nth_state f (Suc m) s, tr @ attempts_trace (Suc m))"
proof -
  have run: "makeRequestWithRetry f None (s, tr) = retry_loop f 3 0 (s, tr)"
    by (simp add: makeRequestWithRetry_def)
  have done_at: "\<exists>m<3. retry_loop f 3 0 (s, tr) =
       ((case nth_outcome f m s of Inr v \<Rightarrow> Returned v | Inl e \<Rightarrow> Threw e),
        nth_state f (Suc m) s, tr @ attempts_trace (Suc m))"
    if pre: "\<forall>j<k. transient_failure (nth_outcome f j s)" and k: "k < 3"
      and last: "\<not> transient_failure (nth_outcome f k s) \<or> k = 2" for k
  proof (cases "nth_outcome f k s")
    case (Inr v)
    from retry_succeeds[OF pre _ Inr, of 3 tr] k show ?thesis
      by (intro exI[of _ k]) (simp add: Inr)
  next
    case (Inl e)
    show ?thesis
    proof (cases "k = 2")
      case True
      from Inl True have i2: "nth_outcome f 2 s = Inl e" by simp
      from retry_exhausted[OF pre _ Inl, of 3 tr] True show ?thesis
        by (intro exI[of _ 2]) (simp add: i2)
    next
      case False
      with last Inl have "\<not> is_transient (error_message e)"
        by (simp add: transient_failure_def)
      from retry_fatal[OF pre _ Inl this, of 3 tr] k show ?thesis
        by (intro exI[of _ k]) (simp add: Inl)
    qed
  qed
  show ?thesis
  proof (cases "transient_failure (nth_outcome f 0 s)")
    case False
    then show ?thesis using done_at[of 0] by (simp add: run)
  next
    case t0: True
    show ?thesis
    proof (cases "transient_failure (nth_outcome f 1 s)")
      case False
      have "\<forall>j<1. transient_failure (nth_outcome f j s)" using t0 by simp
      from done_at[OF this] False show ?thesis by (simp add: run)
    next
      case t1: True
      have "\<forall>j<2. transient_failure (nth_outcome f j s)"
        using t0 t1 by (simp add: numeral_2_eq_2 less_Suc_eq)
      from done_at[OF this] show ?thesis by (simp add: run)
    qed
  qed
qed

lemma checkStatus_recorder:
  "\<exists>m<3. \<exists>r a' seen' tr'.
     checkStatus to_string api uid (Some recorder) a (s, seen, tr)
       = (r, a', nth_state (api (status_url uid)) (Suc m) s, seen', tr')
     \<and> (case nth_outcome (api (status_url uid)) m s of
           Inl e \<Rightarrow> seen' = seen \<and> r \<noteq> None
         | Inr resp \<Rightarrow>
             seen' = seen @ [progress_data (normalized_of (status_data (Returned resp)))]
             \<or> (seen' = seen @ [progress_data (normalized_of (status_data (Returned resp))),
                                completed_data] \<and> r \<noteq> None))"
proof -
  let ?f = "api (status_url uid)"
  from retry_default_outcome[of ?f s tr] obtain m where m: "m < 3"
    and run: "makeRequestWithRetry ?f None (s, tr) =
       ((case nth_outcome ?f m s of Inr v \<Rightarrow> Returned v | Inl e \<Rightarrow> Threw e),
        nth_state ?f (Suc m) s, tr @ attempts_trace (Suc m))"
    by blast
  show ?thesis
  proof (intro exI[of _ m] conjI)
    show "m < 3" by (rule m)
    show "\<exists>r a' seen' tr'.
     checkStatus to_string api uid (Some recorder) a (s, seen, tr)
       = (r, a', nth_state ?f (Suc m) s, seen', tr')
     \<and> (case nth_outcome ?f m s of
           Inl e \<Rightarrow> seen' = seen \<and> r \<noteq> None
         | Inr resp \<Rightarrow>
             seen' = seen @ [progress_data (normalized_of (status_data (Returned resp)))]
             \<or> (seen' = seen @ [progress_data (normalized_of (status_data (Returned resp))),
                                completed_data] \<and> r \<noteq> None))"
      by (cases "nth_outcome ?f m s")
         (simp_all add: checkStatus_def run Let_def notify_def recorder_def
            del: nth_state.simps split: sum.splits)
  qed
qed

lemma poll_loop_recorder_invariant:
  fixes api :: "string \<Rightarrow> ('s, response) request"
  assumes init: "I s seen"
    and step: "\<And>s seen m resp. I s seen \<Longrightarrow> m < 3 \<Longrightarrow>
        nth_outcome (api (status_url uid)) m s = Inr resp \<Longrightarrow>
        I (nth_state (api (status_url uid)) (Suc m) s)
          (seen @ [progress_data (normalized_of (status_data (Returned resp)))])
        \<and> Q (seen @ [progress_data (normalized_of (status_data (Returned resp))), completed_data])"
    and final: "\<And>s seen. I s seen \<Longrightarrow> Q seen"
  shows "Q (fst (snd (snd (snd (poll_loop to_string api uid (Some recorder) a (s, seen, tr))))))"
  using init
proof (induction "maxAttempts - a" arbitrary: a s seen tr rule: less_induct)
  case less
  let ?f = "api (status_url uid)"
  from checkStatus_recorder[of to_string api uid a s seen tr]
  obtain m r a' seen' tr' where m: "m < 3"
    and c: "checkStatus to_string api uid (Some recorder) a (s, seen, tr)
       = (r, a', nth_state ?f (Suc m) s, seen', tr')"
    and shape: "(case nth_outcome ?f m s of
           Inl e \<Rightarrow> seen' = seen \<and> r \<noteq> None
         | Inr resp \<Rightarrow>
             seen' = seen @ [progress_data (normalized_of (status_data (Returned resp)))]
             \<or> (seen' = seen @ [progress_data (normalized_of (status_data (Returned resp))),
                                completed_data] \<and> r \<noteq> None))"
    by blast
  from checkStatus_attempts[OF c] have a': "a' = a + 1" and lt: "r = None \<longrightarrow> a + 1 < maxAttempts"
    by simp_all
  show ?case
  proof (cases r)
    case (Some x)
    from poll_loop_settles[OF c[unfolded Some]]
    have fin: "fst (snd (snd (snd (poll_loop to_string api uid (Some recorder) a (s, seen, tr))))) = seen'"
      by simp
    show ?thesis
    proof (cases "nth_outcome ?f m s")
      case (Inl e)
      with shape have "seen' = seen" by simp
      with fin final[OF less.prems] show ?thesis by simp
    next
      case (Inr resp)
      from step[OF less.prems m Inr] final shape Inr fin show ?thesis by auto
    qed
  next
    case None
    with lt have "maxAttempts - a' < maxAttempts - a" using a' by simp
    note ih = less.hyps[OF this]
    from shape None obtain resp where o: "nth_outcome ?f m s = Inr resp"
      and s': "seen' = seen @ [progress_data (normalized_of (status_data (Returned resp)))]"
      by (cases "nth_outcome ?f m s") auto
    from step[OF less.prems m o] have "I (nth_state ?f (Suc m) s) seen'"
      using s' by simp
    from ih[OF this, of tr'] poll_loop_again[OF c[unfolded None]] show ?thesis by simp
  qed
qed

lemma percentage_of_progress_data [simp]: "percentage_of (progress_data n) = progress n"
  by (simp add: percentage_of_def progress_data_def)

lemma percentage_of_completed_data [simp]: "percentage_of completed_data = 100"
  by (simp add: percentage_of_def completed_data_def)

lemma progressCallback_progress_data:
  "shown_progress (progressCallback (progress_data n) c) = min (max (progress n) 30) 100"
  by (simp add: progressCallback_def progress_data_def Let_def)

lemma progressCallback_completed_data:
  "shown_progress (progressCallback completed_data c) = 100"
  by (simp add: progressCallback_def completed_data_def Let_def)

lemma poll_loop_sorted:
  fixes api :: "string \<Rightarrow> ('s, response) request"
  assumes mono: "\<forall>i j p q. i \<le> j \<and> reported_progress (api (status_url uid)) s i = Some p
            \<and> reported_progress (api (status_url uid)) s j = Some q \<longrightarrow> p \<le> q"
    and bound: "\<forall>j q. reported_progress (api (status_url uid)) s j = Some q \<longrightarrow> q \<le> 100"
  shows "sorted (map percentage_of
           (fst (snd (snd (snd (poll_loop to_string api uid (Some recorder) a (s, [], tr)))))))"
proof -
  let ?f = "api (status_url uid)"
  define I where "I = (\<lambda>s' seen.
      (\<exists>k. s' = nth_state ?f k s
           \<and> (\<forall>x\<in>set (map percentage_of seen). \<forall>j q. reported_progress ?f s (j + k) = Some q \<longrightarrow> x \<le> q))
      \<and> sorted (map percentage_of seen) \<and> (\<forall>x\<in>set (map percentage_of seen). x \<le> 100))"
  define Q where "Q = (\<lambda>seen. sorted (map percentage_of seen))"
  have "\<exists>k. s = nth_state ?f k s" by (rule exI[of _ 0]) simp
  then have init: "I s []"
    unfolding I_def by simp
  have final: "Q seen" if "I s' seen" for s' seen
    using that by (simp add: I_def Q_def)
  have step: "I (nth_state ?f (Suc m) s')
          (seen @ [progress_data (normalized_of (status_data (Returned resp)))])
        \<and> Q (seen @ [progress_data (normalized_of (status_data (Returned resp))), completed_data])"
    if inv: "I s' seen" and m: "m < 3" and o: "nth_outcome ?f m s' = Inr resp" for s' seen m resp
  proof -
    let ?p = "progress (normalized_of (status_data (Returned resp)))"
    from inv obtain k where k: "s' = nth_state ?f k s"
      and fut: "\<forall>x\<in>set (map percentage_of seen). \<forall>j q. reported_progress ?f s (j + k) = Some q \<longrightarrow> x \<le> q"
      and srt: "sorted (map percentage_of seen)"
      and le: "\<forall>x\<in>set (map percentage_of seen). x \<le> 100"
      unfolding I_def by blast
    have rp: "reported_progress ?f s (m + k) = Some ?p"
      using o k by (simp add: reported_progress_def nth_outcome_shift)
    have p100: "?p \<le> 100" by (rule bound[rule_format, OF rp])
    have old_p: "\<forall>x\<in>set (map percentage_of seen). x \<le> ?p"
    proof
      fix x assume "x \<in> set (map percentage_of seen)"
      from fut[rule_format, OF this rp] show "x \<le> ?p" .
    qed
    have st: "nth_state ?f (Suc m) s' = nth_state ?f (Suc m + k) s"
      unfolding k by (rule nth_state_add)
    have fut': "\<forall>x\<in>set (map percentage_of (seen @ [progress_data (normalized_of (status_data (Returned resp)))])).
        \<forall>j q. reported_progress ?f s (j + (Suc m + k)) = Some q \<longrightarrow> x \<le> q"
    proof (intro ballI allI impI)
      fix x j q
      assume x: "x \<in> set (map percentage_of (seen @ [progress_data (normalized_of (status_data (Returned resp)))]))"
        and q: "reported_progress ?f s (j + (Suc m + k)) = Some q"
      from x have "x \<in> set (map percentage_of seen) \<or> x = ?p" by auto
      then show "x \<le> q"
      proof
        assume xin: "x \<in> set (map percentage_of seen)"
        have "reported_progress ?f s ((j + Suc m) + k) = Some q"
          using q by (simp add: add.assoc)
        from fut[rule_format, OF xin this] show ?thesis .
      next
        assume xp: "x = ?p"
        have "m + k \<le> j + (Suc m + k)" by simp
        from mono[rule_format, OF conjI[OF this conjI[OF rp q]]] show ?thesis
          unfolding xp .
      qed
    qed
    have "I (nth_state ?f (Suc m) s') (seen @ [progress_data (normalized_of (status_data (Returned resp)))])"
      unfolding I_def
    proof (intro conjI)
      show "\<exists>ka. nth_state ?f (Suc m) s' = nth_state ?f ka s \<and>
         (\<forall>x\<in>set (map percentage_of (seen @ [progress_data (normalized_of (status_data (Returned resp)))])).
             \<forall>j q. reported_progress ?f s (j + ka) = Some q \<longrightarrow> x \<le> q)"
        by (rule exI[of _ "Suc m + k"], rule conjI, rule st, rule fut')
      show "sorted (map percentage_of (seen @ [progress_data (normalized_of (status_data (Returned resp)))]))"
        using srt old_p by (simp add: sorted_append)
      show "\<forall>x\<in>set (map percentage_of (seen @ [progress_data (normalized_of (status_data (Returned resp)))])). x \<le> 100"
        using le p100 by auto
    qed
    moreover have "Q (seen @ [progress_data (normalized_of (status_data (Returned resp))), completed_data])"
      unfolding Q_def using srt old_p le p100 by (simp add: sorted_append)
    ultimately show ?thesis by blast
  qed
  have "Q (fst (snd (snd (snd (poll_loop to_string api uid (Some recorder) a (s, [], tr))))))"
  proof (rule poll_loop_recorder_invariant[where I = I and Q = Q and s = s and seen = "[]"])
    show "I s []" by (rule init)
  next
    fix s' seen m resp
    assume "I s' seen" "m < 3" "nth_outcome (api (status_url uid)) m s' = Inr resp"
    then show "I (nth_state (api (status_url uid)) (Suc m) s')
          (seen @ [progress_data (normalized_of (status_data (Returned resp)))])
        \<and> Q (seen @ [progress_data (normalized_of (status_data (Returned resp))), completed_data])"
      by (rule step)
  next
    fix s' seen assume "I s' seen"
    then show "Q seen" by (rule final)
  qed
  then show ?thesis unfolding Q_def .
qed

lemma poll_loop_observed:
  fixes api :: "string \<Rightarrow> ('s, response) request"
  shows "\<forall>d \<in> set (fst (snd (snd (snd (poll_loop to_string api uid (Some recorder) a (s, [], tr)))))).
           d = completed_data
           \<or> (\<exists>j resp. nth_outcome (api (status_url uid)) j s = Inr resp
                 \<and> d = progress_data (normalized_of (status_data (Returned resp))))"
proof -
  let ?f = "api (status_url uid)"
  define P where "P = (\<lambda>d. d = completed_data
           \<or> (\<exists>j resp. nth_outcome ?f j s = Inr resp
                 \<and> d = progress_data (normalized_of (status_data (Returned resp)))))"
  define I where "I = (\<lambda>s' seen. (\<exists>k. s' = nth_state ?f k s) \<and> (\<forall>d\<in>set seen. P d))"
  define Q where "Q = (\<lambda>seen. \<forall>d\<in>set seen. P d)"
  have "\<exists>k. s = nth_state ?f k s" by (rule exI[of _ 0]) simp
  then have init: "I s []" unfolding I_def by simp
  have "Q (fst (snd (snd (snd (poll_loop to_string api uid (Some recorder) a (s, [], tr))))))"
  proof (rule poll_loop_recorder_invariant[where I = I and Q = Q and s = s and seen = "[]"])
    show "I s []" by (rule init)
  next
    fix s' seen m resp
    assume inv: "I s' seen" and "m < 3" and o: "nth_outcome (api (status_url uid)) m s' = Inr resp"
    from inv obtain k where k: "s' = nth_state ?f k s" and old: "\<forall>d\<in>set seen. P d"
      unfolding I_def by blast
    have "nth_outcome ?f (m + k) s = Inr resp"
      using o unfolding k by (simp add: nth_outcome_shift)
    then have new: "P (progress_data (normalized_of (status_data (Returned resp))))"
      unfolding P_def by blast
    have c: "P completed_data" unfolding P_def by simp
    have "nth_state ?f (Suc m) s' = nth_state ?f (Suc m + k) s"
      unfolding k by (rule nth_state_add)
    then have "\<exists>k'. nth_state ?f (Suc m) s' = nth_state ?f k' s" by (rule exI)
    then show "I (nth_state (api (status_url uid)) (Suc m) s')
          (seen @ [progress_data (normalized_of (status_data (Returned resp)))])
        \<and> Q (seen @ [progress_data (normalized_of (status_data (Returned resp))), completed_data])"
      unfolding I_def Q_def using old new c by simp
  next
    fix s' seen assume "I s' seen"
    then show "Q seen" unfolding I_def Q_def by simp
  qed
  then show ?thesis unfolding Q_def P_def .
qed

lemma checkStatus_observer:
  assumes "makeRequestWithRetry (api (status_url uid)) None (s, tr) = (Returned resp, s', tr')"
  shows "fst (snd (snd (snd (checkStatus to_string api uid (Some f) a (s, u, tr))))) =
       (if \<exists>res. fst (checkStatus to_string api uid (Some f) a (s, u, tr)) = Some (Resolved res)
        then f completed_data (f (progress_data (normalized_of (status_data (Returned resp)))) u)
        else f (progress_data (normalized_of (status_data (Returned resp)))) u)"
  by (simp add: checkStatus_def assms Let_def notify_def split: sum.splits)

lemma reported_progress_Suc:
  "reported_progress f s (Suc j) = reported_progress f (snd (f s)) j"
  by (simp add: reported_progress_def nth_outcome_Suc)

lemma checkStatus_recorder_answer:
  assumes "api (status_url uid) s = (Inr resp, s')"
  shows "\<exists>r tr'.
     checkStatus to_string api uid (Some recorder) a (s, seen, tr) = (r, a + 1, s',
        seen @ progress_data (normalized_of (status_data (Returned resp)))
               # (if \<exists>res. r = Some (Resolved res) then [completed_data] else []), tr')
     \<and> (r = None \<longrightarrow> a + 1 < maxAttempts)"
  using checkStatus_answer[of api uid s resp s' to_string "Some recorder" a seen tr, OF assms]
  by (auto simp: Let_def notify_def recorder_def split: sum.splits)

lemma poll_loop_answers:
  assumes "\<forall>j < maxAttempts - a. \<exists>resp. nth_outcome (api (status_url uid)) j s = Inr resp"
    and "a < maxAttempts"
  shows "\<exists>out a' s' new tr'.
           poll_loop to_string api uid (Some recorder) a (s, seen, tr) = (out, a', s', seen @ new, tr')
         \<and> a < a' \<and> a' \<le> maxAttempts
         \<and> length new = (a' - a) + (if \<exists>res. out = Resolved res then 1 else 0)
         \<and> (\<forall>i < a' - a. reported_progress (api (status_url uid)) s i = Some (percentage_of (new ! i)))
         \<and> ((\<exists>res. out = Resolved res) \<longrightarrow> new ! (a' - a) = completed_data)"
  using assms
proof (induction "maxAttempts - a" arbitrary: a s seen tr rule: less_induct)
  case less
  let ?f = "api (status_url uid)"
  from less.prems have "\<exists>resp. nth_outcome ?f 0 s = Inr resp" by simp
  then obtain resp where o0: "nth_outcome ?f 0 s = Inr resp" ..
  then have fs: "?f s = (Inr resp, snd (?f s))"
    by (simp add: nth_outcome_def prod_eq_iff)
  let ?pd = "progress_data (normalized_of (status_data (Returned resp)))"
  have rp0: "reported_progress ?f s 0 = Some (percentage_of ?pd)"
    using o0 by (simp add: reported_progress_def)
  from checkStatus_recorder_answer[of api uid s resp "snd (?f s)" to_string a seen tr, OF fs]
  obtain r tr1 where
    c: "checkStatus to_string api uid (Some recorder) a (s, seen, tr) = (r, a + 1, snd (?f s),
        seen @ ?pd # (if \<exists>res. r = Some (Resolved res) then [completed_data] else []), tr1)"
    and lt: "r = None \<longrightarrow> a + 1 < maxAttempts"
    by blast
  show ?case
  proof (cases r)
    case (Some x)
    let ?new = "?pd # (if \<exists>res. x = Resolved res then [completed_data] else [])"
    from poll_loop_settles[OF c[unfolded Some]]
    have run: "poll_loop to_string api uid (Some recorder) a (s, seen, tr)
        = (x, a + 1, snd (?f s), seen @ ?new, tr1)"
      by simp
    have "a < a + 1" "a + 1 \<le> maxAttempts" using less.prems(2) by simp_all
    moreover have "length ?new = (a + 1 - a) + (if \<exists>res. x = Resolved res then 1 else 0)"
      by simp
    moreover have "\<forall>i < a + 1 - a. reported_progress ?f s i = Some (percentage_of (?new ! i))"
      using rp0 by simp
    moreover have "(\<exists>res. x = Resolved res) \<longrightarrow> ?new ! (a + 1 - a) = completed_data"
      by simp
    ultimately show ?thesis using run by blast
  next
    case None
    with lt have a1: "a + 1 < maxAttempts" by simp
    then have m: "maxAttempts - (a + 1) < maxAttempts - a" by simp
    from c None have c': "checkStatus to_string api uid (Some recorder) a (s, seen, tr)
        = (None, a + 1, snd (?f s), seen @ [?pd], tr1)"
      by simp
    have rest: "\<forall>j < maxAttempts - (a + 1). \<exists>resp. nth_outcome ?f j (snd (?f s)) = Inr resp"
    proof (intro allI impI)
      fix j assume "j < maxAttempts - (a + 1)"
      then have "Suc j < maxAttempts - a" by simp
      with less.prems(1) have "\<exists>resp. nth_outcome ?f (Suc j) s = Inr resp" by blast
      then show "\<exists>resp. nth_outcome ?f j (snd (?f s)) = Inr resp"
        by (simp add: nth_outcome_Suc)
    qed
    from less.hyps[OF m rest a1, of "seen @ [?pd]" tr1]
    obtain out a' s' new1 tr' where
      run1: "poll_loop to_string api uid (Some recorder) (a + 1) (snd (?f s), seen @ [?pd], tr1)
              = (out, a', s', (seen @ [?pd]) @ new1, tr')"
      and lo: "a + 1 < a'" and hi: "a' \<le> maxAttempts"
      and len: "length new1 = (a' - (a + 1)) + (if \<exists>res. out = Resolved res then 1 else 0)"
      and rep: "\<forall>i < a' - (a + 1). reported_progress ?f (snd (?f s)) i = Some (percentage_of (new1 ! i))"
      and fin: "(\<exists>res. out = Resolved res) \<longrightarrow> new1 ! (a' - (a + 1)) = completed_data"
      by blast
    have d: "a' - a = Suc (a' - (a + 1))" using lo by simp
    have run: "poll_loop to_string api uid (Some recorder) a (s, seen, tr)
        = (out, a', s', seen @ (?pd # new1), tr')"
      using poll_loop_again[OF c'] run1 by simp
    have "a < a'" using lo by simp
    moreover have "length (?pd # new1) = (a' - a) + (if \<exists>res. out = Resolved res then 1 else 0)"
      using len d by simp
    moreover have "\<forall>i < a' - a. reported_progress ?f s i = Some (percentage_of ((?pd # new1) ! i))"
    proof (intro allI impI)
      fix i assume i: "i < a' - a"
      show "reported_progress ?f s i = Some (percentage_of ((?pd # new1) ! i))"
      proof (cases i)
        case 0
        then show ?thesis using rp0 by simp
      next
        case (Suc i')
        with i d have "i' < a' - (a + 1)" by simp
        with rep have "reported_progress ?f (snd (?f s)) i' = Some (percentage_of (new1 ! i'))"
          by blast
        then show ?thesis by (simp add: Suc reported_progress_Suc)
      qed
    qed
    moreover have "(\<exists>res. out = Resolved res) \<longrightarrow> (?pd # new1) ! (a' - a) = completed_data"
      using fin d by simp
    ultimately show ?thesis using run hi by blast
  qed
qed

text \<open>
  Claim C4, as amended. On every poll whose request returns a response, terminal or
  not, the poller calls the observer once with the server's progress as normalized
  (its \<^verbatim>\<open>progress\<close> when numeric, 0 otherwise), unclamped, and, when that poll resolves
  the promise, once more with \<^verbatim>\<open>{percentage: 100, message: 'Completed'}\<close>: for every
  observer \<open>f\<close>, the state of its owner after the poll is \<open>f\<close> applied so. Over a
  whole polling loop against a server whose first 120 calls all return a response,
  the recorded calls are exactly one per poll, call \<open>i\<close> carrying the progress of
  answer \<open>i\<close>, followed by the final call when the loop resolves. Every argument the
  observer ever receives is the final one or carries the progress of one of the
  server's answers. The clamping is done by the observer of the component: for every
  such argument it stores \<open>min (max percentage 30) 100\<close> as the displayed progress, a
  value between 30 and 100.
\<close>

theorem observer_percentage_clamped_by_component:
  "(makeRequestWithRetry (apiClient_get (status_url uploadId)) None (s, tr) = (Returned resp, s', tr')
      \<longrightarrow>
      fst (snd (snd (snd (checkStatus to_string apiClient_get uploadId (Some f) attempts (s, u, tr)))))
        = (if \<exists>res. fst (checkStatus to_string apiClient_get uploadId (Some f) attempts (s, u, tr))
                        = Some (Resolved res)
           then f completed_data (f (progress_data (normalized_of (status_data (Returned resp)))) u)
           else f (progress_data (normalized_of (status_data (Returned resp)))) u)
      \<and> percentage_of (progress_data (normalized_of (status_data (Returned resp))))
          = spec_progress (status_data (Returned resp)))
   \<and> ((\<forall>j<120. \<exists>r. nth_outcome (apiClient_get (status_url uploadId)) j s = Inr r) \<longrightarrow>
        length (fst (snd (snd (snd
           (pollForCompletion to_string apiClient_get uploadId (Some recorder) (s, [], tr))))))
          = fst (snd (pollForCompletion to_string apiClient_get uploadId (Some recorder) (s, [], tr)))
            + (if \<exists>res. fst (pollForCompletion to_string apiClient_get uploadId (Some recorder)
                                  (s, [], tr)) = Resolved res then 1 else 0)
        \<and> (\<forall>i < fst (snd (pollForCompletion to_string apiClient_get uploadId (Some recorder) (s, [], tr))).
              reported_progress (apiClient_get (status_url uploadId)) s i
                = Some (percentage_of
                     (fst (snd (snd (snd
                        (pollForCompletion to_string apiClient_get uploadId (Some recorder) (s, [], tr)))))
                      ! i)))
        \<and> ((\<exists>res. fst (pollForCompletion to_string apiClient_get uploadId (Some recorder) (s, [], tr))
                       = Resolved res) \<longrightarrow>
              fst (snd (snd (snd
                 (pollForCompletion to_string apiClient_get uploadId (Some recorder) (s, [], tr)))))
              ! fst (snd (pollForCompletion to_string apiClient_get uploadId (Some recorder) (s, [], tr)))
                = completed_data))
   \<and> (\<forall>d \<in> set (fst (snd (snd (snd
           (pollForCompletion to_string apiClient_get uploadId (Some recorder) (s, [], tr)))))).
     (d = completed_data
      \<or> (\<exists>j resp. nth_outcome (apiClient_get (status_url uploadId)) j s = Inr resp
            \<and> d = progress_data (normalized_of (status_data (Returned resp)))))
     \<and> shown_progress (progressCallback d c) = min (max (percentage_of d) 30) 100
     \<and> 30 \<le> shown_progress (progressCallback d c)
     \<and> shown_progress (progressCallback d c) \<le> 100)"
proof (intro conjI)
  show "makeRequestWithRetry (apiClient_get (status_url uploadId)) None (s, tr) = (Returned resp, s', tr')
      \<longrightarrow>
      fst (snd (snd (snd (checkStatus to_string apiClient_get uploadId (Some f) attempts (s, u, tr)))))
        = (if \<exists>res. fst (checkStatus to_string apiClient_get uploadId (Some f) attempts (s, u, tr))
                        = Some (Resolved res)
           then f completed_data (f (progress_data (normalized_of (status_data (Returned resp)))) u)
           else f (progress_data (normalized_of (status_data (Returned resp)))) u)
      \<and> percentage_of (progress_data (normalized_of (status_data (Returned resp))))
          = spec_progress (status_data (Returned resp))"
  proof (intro impI conjI)
    assume r: "makeRequestWithRetry (apiClient_get (status_url uploadId)) None (s, tr)
                 = (Returned resp, s', tr')"
    show "fst (snd (snd (snd (checkStatus to_string apiClient_get uploadId (Some f) attempts (s, u, tr)))))
        = (if \<exists>res. fst (checkStatus to_string apiClient_get uploadId (Some f) attempts (s, u, tr))
                        = Some (Resolved res)
           then f completed_data (f (progress_data (normalized_of (status_data (Returned resp)))) u)
           else f (progress_data (normalized_of (status_data (Returned resp)))) u)"
      by (rule checkStatus_observer[where api = apiClient_get and uid = uploadId, OF r])
    show "percentage_of (progress_data (normalized_of (status_data (Returned resp))))
          = spec_progress (status_data (Returned resp))"
      by (simp add: fields_normalized_of spec_progress_def)
  qed
next
  let ?run = "pollForCompletion to_string apiClient_get uploadId (Some recorder) (s, [], tr)"
  show "(\<forall>j<120. \<exists>r. nth_outcome (apiClient_get (status_url uploadId)) j s = Inr r) \<longrightarrow>
        length (fst (snd (snd (snd ?run))))
          = fst (snd ?run) + (if \<exists>res. fst ?run = Resolved res then 1 else 0)
        \<and> (\<forall>i < fst (snd ?run).
              reported_progress (apiClient_get (status_url uploadId)) s i
                = Some (percentage_of (fst (snd (snd (snd ?run))) ! i)))
        \<and> ((\<exists>res. fst ?run = Resolved res) \<longrightarrow>
              fst (snd (snd (snd ?run))) ! fst (snd ?run) = completed_data)"
  proof
    assume "\<forall>j<120. \<exists>r. nth_outcome (apiClient_get (status_url uploadId)) j s = Inr r"
    then have h: "\<forall>j < maxAttempts - 0. \<exists>resp. nth_outcome (apiClient_get (status_url uploadId)) j s = Inr resp"
      by (simp add: maxAttempts_def)
    have "0 < maxAttempts" by (simp add: maxAttempts_def)
    from poll_loop_answers[where api = apiClient_get and uid = uploadId and a = 0 and s = s
        and to_string = to_string and seen = "[]" and tr = tr, OF h this]
    obtain out a' s1 new tr1 where
      run: "poll_loop to_string apiClient_get uploadId (Some recorder) 0 (s, [], tr)
              = (out, a', s1, [] @ new, tr1)"
      and len: "length new = (a' - 0) + (if \<exists>res. out = Resolved res then 1 else 0)"
      and rep: "\<forall>i < a' - 0. reported_progress (apiClient_get (status_url uploadId)) s i
                  = Some (percentage_of (new ! i))"
      and fin: "(\<exists>res. out = Resolved res) \<longrightarrow> new ! (a' - 0) = completed_data"
      by blast
    have r: "?run = (out, a', s1, new, tr1)"
      using run by (simp add: pollForCompletion_def)
    show "length (fst (snd (snd (snd ?run))))
          = fst (snd ?run) + (if \<exists>res. fst ?run = Resolved res then 1 else 0)
        \<and> (\<forall>i < fst (snd ?run).
              reported_progress (apiClient_get (status_url uploadId)) s i
                = Some (percentage_of (fst (snd (snd (snd ?run))) ! i)))
        \<and> ((\<exists>res. fst ?run = Resolved res) \<longrightarrow>
              fst (snd (snd (snd ?run))) ! fst (snd ?run) = completed_data)"
      unfolding r using len rep fin by simp
  qed
next
  show "\<forall>d \<in> set (fst (snd (snd (snd
           (pollForCompletion to_string apiClient_get uploadId (Some recorder) (s, [], tr)))))).
     (d = completed_data
      \<or> (\<exists>j resp. nth_outcome (apiClient_get (status_url uploadId)) j s = Inr resp
            \<and> d = progress_data (normalized_of (status_data (Returned resp)))))
     \<and> shown_progress (progressCallback d c) = min (max (percentage_of d) 30) 100
     \<and> 30 \<le> shown_progress (progressCallback d c)
     \<and> shown_progress (progressCallback d c) \<le> 100"
  proof
    fix d
    assume "d \<in> set (fst (snd (snd (snd
           (pollForCompletion to_string apiClient_get uploadId (Some recorder) (s, [], tr))))))"
    with poll_loop_observed[of to_string apiClient_get uploadId 0 s tr]
    have shape: "d = completed_data
      \<or> (\<exists>j resp. nth_outcome (apiClient_get (status_url uploadId)) j s = Inr resp
            \<and> d = progress_data (normalized_of (status_data (Returned resp))))"
      by (simp add: pollForCompletion_def)
    then have sp: "shown_progress (progressCallback d c) = min (max (percentage_of d) 30) 100"
      by (auto simp: progressCallback_progress_data progressCallback_completed_data)
    show "(d = completed_data
      \<or> (\<exists>j resp. nth_outcome (apiClient_get (status_url uploadId)) j s = Inr resp
            \<and> d = progress_data (normalized_of (status_data (Returned resp)))))
     \<and> shown_progress (progressCallback d c) = min (max (percentage_of d) 30) 100
     \<and> 30 \<le> shown_progress (progressCallback d c)
     \<and> shown_progress (progressCallback d c) \<le> 100"
      using shape sp by simp
  qed
qed

text \<open>
  Claim C8, as amended. The poller does not itself prevent a regression. The progress
  of an answer is the value the poller normalizes from it: the \<^verbatim>\<open>progress\<close> field when
  it is numeric, and 0 when it is absent or not a number, so that an answer without
  a numeric progress after a positive one is a decrease. When these values never
  decrease from one answer to a later one and never exceed 100, the percentages
  handed to the observer over one polling loop are non-decreasing, the final 100
  included.
\<close>

theorem observer_percentages_sorted:
  assumes "\<forall>i j p q. i \<le> j \<and> reported_progress (apiClient_get (status_url uploadId)) s i = Some p
            \<and> reported_progress (apiClient_get (status_url uploadId)) s j = Some q \<longrightarrow> p \<le> q"
    and "\<forall>j q. reported_progress (apiClient_get (status_url uploadId)) s j = Some q \<longrightarrow> q \<le> 100"
  shows "sorted (map percentage_of (fst (snd (snd (snd
           (pollForCompletion to_string apiClient_get uploadId (Some recorder) (s, [], tr)))))))"
  unfolding pollForCompletion_def
  by (rule poll_loop_sorted[where api = apiClient_get and uid = uploadId and s = s, OF assms])

lemma scripted_get_answer:
  "scripted_get script dflt url n = (if n < length script then script ! n else dflt, Suc n)"
  by (simp add: scripted_get_def scripted_def)

lemmas poll_eval =
  status_normalized_of fields_normalized_of merge_result_def status_data_def notify_def
  recorder_def maxAttempts_def Let_def progress_data_def completed_data_def or_else_def

lemma run_completed_at_5:
  "pollForCompletion stub_string
     (scripted_get [] (ok (JObj [(''status'', JStr ''completed''), (''progress'', JNum 5),
                                 (''result'', JObj [(''timetables'', JArr [])])])))
     ''abc'' (Some recorder) (0, [], [])
   = (Resolved (JObj [(''timetables'', JArr [])]), 1, 1,
      [JObj [(''percentage'', JNum 5), (''message'', JStr ''Processing...'')],
       JObj [(''percentage'', JNum 100), (''message'', JStr ''Completed'')]],
      [Invoked])"
proof -
  let ?body = "JObj [(''status'', JStr ''completed''), (''progress'', JNum 5),
                     (''result'', JObj [(''timetables'', JArr [])])]"
  have a: "scripted_get [] (ok ?body) (status_url ''abc'') 0
             = (Inr \<lparr> http_status = 200, data = ?body \<rparr>, 1)"
    by (simp add: scripted_get_answer ok_def)
  have "checkStatus stub_string (scripted_get [] (ok ?body)) ''abc'' (Some recorder) 0 (0, [], [])
     = (Some (Resolved (JObj [(''timetables'', JArr [])])), 1, 1,
        [JObj [(''percentage'', JNum 5), (''message'', JStr ''Processing...'')],
         JObj [(''percentage'', JNum 100), (''message'', JStr ''Completed'')]],
        [Invoked])"
    using checkStatus_answer[of "scripted_get [] (ok ?body)" "''abc''" 0
        "\<lparr> http_status = 200, data = ?body \<rparr>" 1 stub_string "Some recorder" 0 "[]" "[]", OF a]
    by (simp add: poll_eval)
  from poll_loop_settles[OF this] show ?thesis
    by (simp add: pollForCompletion_def)
qed

theorem observer_percentage_clamped_by_component_witness:
  "makeRequestWithRetry
      (scripted_get [] (ok (JObj [(''status'', JStr ''completed''), (''progress'', JNum 5),
                                  (''result'', JObj [(''timetables'', JArr [])])]))
         (status_url ''abc'')) None (0, [])
     = (Returned \<lparr> http_status = 200,
                   data = JObj [(''status'', JStr ''completed''), (''progress'', JNum 5),
                                (''result'', JObj [(''timetables'', JArr [])])] \<rparr>, 1, [Invoked])
   \<and> fst (snd (snd (snd (checkStatus stub_string
          (scripted_get [] (ok (JObj [(''status'', JStr ''completed''), (''progress'', JNum 5),
                                      (''result'', JObj [(''timetables'', JArr [])])])))
          ''abc'' (Some progressCallback) 0
          (0, \<lparr> shown_progress = 30, shown_text = JStr ''Starting timetable generation...'' \<rparr>, [])))))
       = progressCallback completed_data
           (progressCallback (JObj [(''percentage'', JNum 5), (''message'', JStr ''Processing...'')])
              \<lparr> shown_progress = 30, shown_text = JStr ''Starting timetable generation...'' \<rparr>)
   \<and> (\<forall>j. nth_outcome
          (scripted_get [] (ok (JObj [(''status'', JStr ''completed''), (''progress'', JNum 5),
                                      (''result'', JObj [(''timetables'', JArr [])])]))
             (status_url ''abc'')) j 0
        = Inr \<lparr> http_status = 200,
                 data = JObj [(''status'', JStr ''completed''), (''progress'', JNum 5),
                              (''result'', JObj [(''timetables'', JArr [])])] \<rparr>)
   \<and> length (fst (snd (snd (snd (pollForCompletion stub_string
          (scripted_get [] (ok (JObj [(''status'', JStr ''completed''), (''progress'', JNum 5),
                                      (''result'', JObj [(''timetables'', JArr [])])])))
          ''abc'' (Some recorder) (0, [], [])))))) = 2
   \<and> JObj [(''percentage'', JNum 5), (''message'', JStr ''Processing...'')]
     \<in> set (fst (snd (snd (snd (pollForCompletion stub_string
          (scripted_get [] (ok (JObj [(''status'', JStr ''completed''), (''progress'', JNum 5),
                                      (''result'', JObj [(''timetables'', JArr [])])])))
          ''abc'' (Some recorder) (0, [], []))))))
   \<and> percentage_of (JObj [(''percentage'', JNum 5), (''message'', JStr ''Processing...'')]) = 5
   \<and> shown_progress (progressCallback
         (JObj [(''percentage'', JNum 5), (''message'', JStr ''Processing...'')])
         \<lparr> shown_progress = 30, shown_text = JStr ''Starting timetable generation...'' \<rparr>) = 30"
proof -
  let ?body = "JObj [(''status'', JStr ''completed''), (''progress'', JNum 5),
                     (''result'', JObj [(''timetables'', JArr [])])]"
  let ?api = "scripted_get [] (ok ?body)"
  let ?R = "\<lparr> http_status = 200, data = ?body \<rparr>"
  let ?d = "JObj [(''percentage'', JNum 5), (''message'', JStr ''Processing...'')]"
  let ?c = "\<lparr> shown_progress = 30, shown_text = JStr ''Starting timetable generation...'' \<rparr>"
  have a: "?api (status_url ''abc'') 0 = (Inr ?R, 1)"
    by (simp add: scripted_get_answer ok_def)
  have mr: "makeRequestWithRetry (?api (status_url ''abc'')) None (0, []) = (Returned ?R, 1, [Invoked])"
    using makeRequestWithRetry_first_success[of "?api (status_url ''abc'')" 0 ?R 1 "[]", OF a]
    by simp
  have res: "fst (checkStatus stub_string ?api ''abc'' (Some progressCallback) 0 (0, ?c, []))
               = Some (Resolved (JObj [(''timetables'', JArr [])]))"
    using checkStatus_answer[of ?api "''abc''" 0 ?R 1 stub_string "Some progressCallback" 0 ?c "[]", OF a]
    by (simp add: status_normalized_of fields_normalized_of merge_result_def status_data_def Let_def)
  have pd: "progress_data (normalized_of (status_data (Returned ?R))) = ?d"
    by (simp add: poll_eval)
  have answers: "\<forall>j. nth_outcome (?api (status_url ''abc'')) j 0 = Inr ?R"
    by (simp add: nth_outcome_scripted_get ok_def)
  then have h: "\<forall>j<120. \<exists>r. nth_outcome (?api (status_url ''abc'')) j 0 = Inr r"
    by simp
  have mem: "?d \<in> set (fst (snd (snd (snd
      (pollForCompletion stub_string ?api ''abc'' (Some recorder) (0, [], []))))))"
    by (simp add: run_completed_at_5)
  have pct: "percentage_of ?d = 5"
    by (simp add: percentage_of_def)
  note inst = observer_percentage_clamped_by_component[where apiClient_get = ?api
      and uploadId = "''abc''" and s = 0 and tr = "[]" and resp = ?R and s' = 1 and tr' = "[Invoked]"
      and to_string = stub_string and f = progressCallback and attempts = 0 and u = ?c and c = ?c]
  from inst have A: "fst (snd (snd (snd (checkStatus stub_string ?api ''abc'' (Some progressCallback) 0
          (0, ?c, []))))) = progressCallback completed_data (progressCallback ?d ?c)"
    using mr res pd by simp
  from inst h have B: "length (fst (snd (snd (snd
      (pollForCompletion stub_string ?api ''abc'' (Some recorder) (0, [], []))))))
      = fst (snd (pollForCompletion stub_string ?api ''abc'' (Some recorder) (0, [], [])))
        + (if \<exists>res. fst (pollForCompletion stub_string ?api ''abc'' (Some recorder) (0, [], []))
                        = Resolved res then 1 else 0)"
    by blast
  from inst mem have C: "shown_progress (progressCallback ?d ?c) = min (max (percentage_of ?d) 30) 100"
    by blast
  show ?thesis
    using mr A answers B mem pct C by (simp add: run_completed_at_5)
qed

text \<open>
  The claim as stated fails when a poll answers with the progress 5: the observer is
  called with the percentage 5, below 30, and then with 100.
\<close>

theorem observer_percentage_clamped_by_component_counterexample:
  "map percentage_of (fst (snd (snd (snd (pollForCompletion stub_string
          (scripted_get [] (ok (JObj [(''status'', JStr ''completed''), (''progress'', JNum 5),
                                      (''result'', JObj [(''timetables'', JArr [])])])))
          ''abc'' (Some recorder) (0, [], []))))))
     = [5, 100]"
  by (simp add: run_completed_at_5 percentage_of_def)

lemma run_regressing:
  "pollForCompletion stub_string
     (scripted_get [ok (JObj [(''status'', JStr ''processing''), (''progress'', JNum 80)])]
                   (ok (JObj [(''status'', JStr ''completed''), (''progress'', JNum 40),
                              (''result'', JObj [(''timetables'', JArr [])])])))
     ''abc'' (Some recorder) (0, [], [])
   = (Resolved (JObj [(''timetables'', JArr [])]), 2, 2,
      [JObj [(''percentage'', JNum 80), (''message'', JStr ''Processing...'')],
       JObj [(''percentage'', JNum 40), (''message'', JStr ''Processing...'')],
       JObj [(''percentage'', JNum 100), (''message'', JStr ''Completed'')]],
      [Invoked, Waited 5000, Invoked])"
proof -
  let ?b1 = "JObj [(''status'', JStr ''processing''), (''progress'', JNum 80)]"
  let ?b2 = "JObj [(''status'', JStr ''completed''), (''progress'', JNum 40),
                   (''result'', JObj [(''timetables'', JArr [])])]"
  let ?api = "scripted_get [ok ?b1] (ok ?b2)"
  let ?d1 = "JObj [(''percentage'', JNum 80), (''message'', JStr ''Processing...'')]"
  have a1: "?api (status_url ''abc'') 0 = (Inr \<lparr> http_status = 200, data = ?b1 \<rparr>, 1)"
    by (simp add: scripted_get_answer ok_def)
  have a2: "?api (status_url ''abc'') 1 = (Inr \<lparr> http_status = 200, data = ?b2 \<rparr>, 2)"
    by (simp add: scripted_get_answer ok_def)
  have c1: "checkStatus stub_string ?api ''abc'' (Some recorder) 0 (0, [], [])
     = (None, 1, 1, [?d1], [Invoked, Waited 5000])"
    using checkStatus_answer[of ?api "''abc''" 0 "\<lparr> http_status = 200, data = ?b1 \<rparr>" 1
        stub_string "Some recorder" 0 "[]" "[]", OF a1]
    by (simp add: poll_eval)
  have c2: "checkStatus stub_string ?api ''abc'' (Some recorder) 1 (1, [?d1], [Invoked, Waited 5000])
     = (Some (Resolved (JObj [(''timetables'', JArr [])])), 2, 2,
        [?d1, JObj [(''percentage'', JNum 40), (''message'', JStr ''Processing...'')],
         JObj [(''percentage'', JNum 100), (''message'', JStr ''Completed'')]],
        [Invoked, Waited 5000, Invoked])"
    using checkStatus_answer[of ?api "''abc''" 1 "\<lparr> http_status = 200, data = ?b2 \<rparr>" 2
        stub_string "Some recorder" 1 "[?d1]" "[Invoked, Waited 5000]", OF a2]
    by (simp add: poll_eval)
  show ?thesis
    unfolding pollForCompletion_def
    by (rule trans[OF poll_loop_again[OF c1] poll_loop_settles[OF c2]])
qed

text \<open>
  The claim as stated fails when the server reports 80 and then 40: the observer is
  called with 80, then 40, then 100.
\<close>

theorem observer_percentages_sorted_counterexample:
  "map percentage_of (fst (snd (snd (snd (pollForCompletion stub_string
     (scripted_get [ok (JObj [(''status'', JStr ''processing''), (''progress'', JNum 80)])]
                   (ok (JObj [(''status'', JStr ''completed''), (''progress'', JNum 40),
                              (''result'', JObj [(''timetables'', JArr [])])])))
     ''abc'' (Some recorder) (0, [], []))))))
   = [80, 40, 100]"
  by (simp add: run_regressing percentage_of_def)

lemma reported_progress_rising:
  "reported_progress
     (scripted_get [ok (JObj [(''status'', JStr ''processing''), (''progress'', JNum 40)])]
                   (ok (JObj [(''status'', JStr ''completed''), (''progress'', JNum 80),
                              (''result'', JObj [(''timetables'', JArr [])])]))
        (status_url ''abc'')) 0 j
   = Some (if j < 1 then 40 else 80)"
  by (simp add: reported_progress_def nth_outcome_scripted_get ok_def status_data_def
        fields_normalized_of)

theorem observer_percentages_sorted_witness:
  "(\<forall>j. reported_progress
     (scripted_get [ok (JObj [(''status'', JStr ''processing''), (''progress'', JNum 40)])]
                   (ok (JObj [(''status'', JStr ''completed''), (''progress'', JNum 80),
                              (''result'', JObj [(''timetables'', JArr [])])]))
        (status_url ''abc'')) 0 j
      = Some (if j < 1 then 40 else 80))
   \<and> sorted (map percentage_of (fst (snd (snd (snd (pollForCompletion stub_string
     (scripted_get [ok (JObj [(''status'', JStr ''processing''), (''progress'', JNum 40)])]
                   (ok (JObj [(''status'', JStr ''completed''), (''progress'', JNum 80),
                              (''result'', JObj [(''timetables'', JArr [])])])))
     ''abc'' (Some recorder) (0, [], [])))))))"
proof -
  let ?api = "scripted_get [ok (JObj [(''status'', JStr ''processing''), (''progress'', JNum 40)])]
                   (ok (JObj [(''status'', JStr ''completed''), (''progress'', JNum 80),
                              (''result'', JObj [(''timetables'', JArr [])])]))"
  have mono: "\<forall>i j p q. i \<le> j \<and> reported_progress (?api (status_url ''abc'')) 0 i = Some p
            \<and> reported_progress (?api (status_url ''abc'')) 0 j = Some q \<longrightarrow> p \<le> q"
    by (auto simp: reported_progress_rising split: if_splits)
  have bound: "\<forall>j q. reported_progress (?api (status_url ''abc'')) 0 j = Some q \<longrightarrow> q \<le> 100"
    by (auto simp: reported_progress_rising split: if_splits)
  from observer_percentages_sorted[where apiClient_get = ?api and uploadId = "''abc''" and s = 0
      and to_string = stub_string and tr = "[]", OF mono bound]
  show ?thesis
    by (simp add: reported_progress_rising)
qed

end
